theory Spec2Isabelle
  imports Complex_Main "HOL-Library.Sublist"
begin

chapter \<open>The model\<close>

section \<open>Size formatting\<close>

text \<open>
  \<^verbatim>\<open>formatFileSize\<close> is the same function in \<^verbatim>\<open>index.js\<close> (lines 21-29), in
  \<^verbatim>\<open>convert-to-webp.js\<close> (lines 33-41) and in the pooled optimizer script. Its argument
  is the \<^verbatim>\<open>size\<close> field of \<^verbatim>\<open>fs.statSync\<close>, a natural number. Every division is by
  1024, which is exact on binary floating point numbers, so \<^verbatim>\<open>kb\<close>, \<^verbatim>\<open>mb\<close> and
  \<^verbatim>\<open>gb\<close> are the exact quotients and are modelled by \<^typ>\<open>real\<close>.

  A template literal renders a natural number below \<open>10\<^sup>2\<^sup>1\<close> by its decimal digits, and
  so does \<^verbatim>\<open>toFixed\<close>; the model is that of the scripts for every size whose number of
  gigabytes is below \<open>10\<^sup>2\<^sup>1\<close>, which every size of a file is.
\<close>

definition digit_char :: "nat \<Rightarrow> char" where
  "digit_char d = ''0123456789'' ! d"

fun show_nat :: "nat \<Rightarrow> string" where
  "show_nat n =
     (if n < 10 then [digit_char n] else show_nat (n div 10) @ [digit_char (n mod 10)])"

declare show_nat.simps [simp del]

text \<open>
  \<^verbatim>\<open>Number.prototype.toFixed(1)\<close> on a non-negative number below \<open>10\<^sup>2\<^sup>1\<close>, as
  ECMAScript defines it: \<open>n\<close> is the integer for which \<open>n / 10 - x\<close> is closest to zero,
  the larger one on a tie; its digits are padded with zeros on the left to two places at
  least; a point is put before the last digit.
\<close>

definition toFixed1 :: "real \<Rightarrow> string" where
  "toFixed1 x =
     (let n = nat \<lfloor>x * 10 + 1 / 2\<rfloor>;
          m = show_nat n;
          m = (if length m \<le> 1 then replicate (2 - length m) CHR ''0'' @ m else m);
          k = length m
      in take (k - 1) m @ ''.'' @ drop (k - 1) m)"

definition formatFileSize :: "nat \<Rightarrow> string" where
  "formatFileSize bytes =
     (if bytes < 1024 then show_nat bytes @ '' B''
      else let kb = real bytes / 1024 in
        if kb < 1024 then toFixed1 kb @ '' KB''
        else let mb = kb / 1024 in
          if mb < 1024 then toFixed1 mb @ '' MB''
          else let gb = mb / 1024 in toFixed1 gb @ '' GB'')"

text \<open>
  The rule as the specification words it, on natural numbers only: \<open>one_decimal b u\<close> is
  \<open>b / u\<close> rounded to the nearest tenth (halves upwards), written with one decimal.
\<close>

definition one_decimal :: "nat \<Rightarrow> nat \<Rightarrow> string" where
  "one_decimal b u =
     (let t = (20 * b + u) div (2 * u) in show_nat (t div 10) @ ''.'' @ show_nat (t mod 10))"

definition size_rule :: "nat \<Rightarrow> string" where
  "size_rule b =
     (if b < 1024 then show_nat b @ '' B''
      else if b < 1024 * 1024 then one_decimal b 1024 @ '' KB''
      else if b < 1024 * 1024 * 1024 then one_decimal b (1024 * 1024) @ '' MB''
      else one_decimal b (1024 * 1024 * 1024) @ '' GB'')"

section \<open>File names and paths\<close>

text \<open>
  The scripts take the entries of \<^verbatim>\<open>fs.readdirSync\<close> and pass them to Node's \<^verbatim>\<open>path\<close>
  functions. An entry is a file name: it holds no separator and is neither \<^verbatim>\<open>.\<close> nor
  \<^verbatim>\<open>..\<close>. The functions below are Node's POSIX \<^verbatim>\<open>path.extname\<close>, \<^verbatim>\<open>path.basename\<close>
  (with a suffix) and \<^verbatim>\<open>path.join\<close> on such names, for a directory that \<^verbatim>\<open>path.resolve\<close>
  has normalised. \<^verbatim>\<open>toLowerCase\<close> is modelled on ASCII letters, the only ones that can
  produce the extensions of the allow-lists.

  \<^verbatim>\<open>extname\<close>: the text from the last dot of the name on; empty when there is no dot, when
  the only dot is the first character, and for \<^verbatim>\<open>..\<close>.
  \<^verbatim>\<open>basename\<close>: the name without the suffix, when the suffix is a proper end of the name.
\<close>

definition to_lower_char :: "char \<Rightarrow> char" where
  "to_lower_char c =
     (case map_of (zip ''ABCDEFGHIJKLMNOPQRSTUVWXYZ'' ''abcdefghijklmnopqrstuvwxyz'') c of
        Some l \<Rightarrow> l
      | None \<Rightarrow> c)"

definition toLowerCase :: "string \<Rightarrow> string" where
  "toLowerCase s = map to_lower_char s"

definition extname :: "string \<Rightarrow> string" where
  "extname p =
     (let e = takeWhile (\<lambda>c. c \<noteq> CHR ''.'') (rev p)
      in if CHR ''.'' \<notin> set p then []
         else if length e + 1 = length p then []
         else if p = ''..'' then []
         else CHR ''.'' # rev e)"

definition basename :: "string \<Rightarrow> string \<Rightarrow> string" where
  "basename p suf =
     (if suf \<noteq> [] \<and> length suf \<le> length p
      then (if suf = p then []
            else if suffix suf p then take (length p - length suf) p
            else p)
      else p)"

definition path_join :: "string \<Rightarrow> string \<Rightarrow> string" where
  "path_join dir name = dir @ ''/'' @ name"

text \<open>
  The allow-lists: \<^verbatim>\<open>path.extname(file).toLowerCase() === ".gif"\<close> in the optimizer
  scripts, \<^verbatim>\<open>/\.(jpg|jpeg|png)$/i.test(path.extname(file))\<close> in the raster script.
\<close>

definition is_gif :: "string \<Rightarrow> bool" where
  "is_gif file = (toLowerCase (extname file) = ''.gif'')"

definition is_image :: "string \<Rightarrow> bool" where
  "is_image file =
     (let e = toLowerCase (extname file)
      in suffix ''.jpg'' e \<or> suffix ''.jpeg'' e \<or> suffix ''.png'' e)"

text \<open>
  The arguments that \<^verbatim>\<open>processGIFs\<close> (all three optimizer scripts) and \<^verbatim>\<open>processImages\<close>
  compute for each matching file, in the order of the listing.
\<close>

record task =
  inputPath :: string
  outputPath :: string
  fileName :: string

definition gif_tasks :: "string \<Rightarrow> string \<Rightarrow> string list \<Rightarrow> task list" where
  "gif_tasks inputDir outputDir gifFiles =
     map (\<lambda>file. \<lparr>inputPath = path_join inputDir file,
                  outputPath = path_join outputDir file,
                  fileName = file\<rparr>) gifFiles"

definition image_tasks :: "string \<Rightarrow> string \<Rightarrow> string list \<Rightarrow> task list" where
  "image_tasks inputDir outputDir imageFiles =
     map (\<lambda>file. \<lparr>inputPath = path_join inputDir file,
                  outputPath = path_join outputDir (basename file (extname file) @ ''.webp''),
                  fileName = file\<rparr>) imageFiles"

section \<open>Files, effects and promises\<close>

text \<open>
  The file system as the scripts use it: regular files with their bytes, directories with the
  entries that \<^verbatim>\<open>fs.readdirSync\<close> lists and the size that \<^verbatim>\<open>fs.statSync\<close> reports for
  them, and the paths that the process may not write. \<^verbatim>\<open>None\<close> from \<open>stat_size\<close> stands
  for the exception that Node throws on a missing path; \<^verbatim>\<open>None\<close> from \<open>copyFileSync\<close>
  stands for the exception that it throws when the source is not a regular file (missing, or
  a directory) or when the destination is a directory or may not be written. The listing of
  a directory is only ever read for the input directory, which no script writes to.
\<close>

type_synonym bytes = string

record filesystem =
  files :: "string \<rightharpoonup> bytes"
  dirs :: "string \<rightharpoonup> string list"
  dir_size :: "string \<Rightarrow> nat"
  denied :: "string \<Rightarrow> bool"

definition existsSync :: "filesystem \<Rightarrow> string \<Rightarrow> bool" where
  "existsSync f p =
     (case files f p of
        Some _ \<Rightarrow> True
      | None \<Rightarrow> (case dirs f p of Some _ \<Rightarrow> True | None \<Rightarrow> False))"

definition stat_size :: "filesystem \<Rightarrow> string \<Rightarrow> nat option" where
  "stat_size f p =
     (case files f p of
        Some b \<Rightarrow> Some (length b)
      | None \<Rightarrow> (case dirs f p of Some _ \<Rightarrow> Some (dir_size f p) | None \<Rightarrow> None))"

definition readdirSync :: "filesystem \<Rightarrow> string \<Rightarrow> string list option" where
  "readdirSync f p = dirs f p"

definition mkdirSync :: "string \<Rightarrow> filesystem \<Rightarrow> filesystem" where
  "mkdirSync p f = f\<lparr>dirs := (dirs f)(p \<mapsto> [])\<rparr>"

definition writable :: "filesystem \<Rightarrow> string \<Rightarrow> bool" where
  "writable f p = (case dirs f p of Some _ \<Rightarrow> False | None \<Rightarrow> \<not> denied f p)"

definition writeFile :: "string \<Rightarrow> bytes \<Rightarrow> filesystem \<Rightarrow> filesystem" where
  "writeFile p b f = f\<lparr>files := (files f)(p \<mapsto> b)\<rparr>"

definition copyFileSync :: "string \<Rightarrow> string \<Rightarrow> filesystem \<Rightarrow> filesystem option" where
  "copyFileSync src dst f =
     (case files f src of
        None \<Rightarrow> None
      | Some b \<Rightarrow> if writable f dst then Some (writeFile dst b f) else None)"

text \<open>
  What the child process or the image library does when it writes the destination: nothing
  where the path may not be written.
\<close>

definition tool_write :: "string \<Rightarrow> bytes \<Rightarrow> filesystem \<Rightarrow> filesystem" where
  "tool_write p b f = (if writable f p then writeFile p b f else f)"

text \<open>
  The values that reject a promise: the \<^verbatim>\<open>Error\<close> built from the exit code in the
  \<^verbatim>\<open>close\<close> handlers (\<^verbatim>\<open>code\<close> is \<^verbatim>\<open>null\<close>, here \<open>None\<close>, when a signal ended the
  process), the error of the \<^verbatim>\<open>error\<close> event, the exception of \<^verbatim>\<open>fs.statSync\<close> and the
  error thrown by the image library.
\<close>

datatype error =
    ExitCode string "int option"
  | SpawnError string
  | NoEntry string
  | SharpError string

datatype settle = Resolved | Rejected error

text \<open>
  What a run does that can be observed from outside, in order: the processes it spawns, the
  calls of the image library, the directory it lists, the calls of \<^verbatim>\<open>updateProgressBar\<close>
  (file name, percentage, and the two sizes where the script passes them) and the lines it
  prints.
\<close>

datatype effect =
    Exec string "string list"
  | Sharp string string
  | ReadDir string
  | Progress string real "(nat \<times> nat) option"
  | Newline
  | NoFilesFound
  | Found nat
  | FailedToOptimize string
  | AllDone
  | SkippedLarger string
  | ErrorDuring error
  | ErrorConverting string error
  | NotInstalled
  | InputDirMissing string

text \<open>
  \<open>shared\<close> is what all tasks of a run act on. \<open>uncaught\<close> is set by an exception thrown
  inside an event handler, which ends the process. \<open>local\<close> holds the variables that one call
  of \<^verbatim>\<open>optimizeGIF\<close> or \<^verbatim>\<open>convertToWebP\<close> closes over: \<^verbatim>\<open>originalSize\<close>, \<^verbatim>\<open>progress\<close>,
  whether the timer of \<^verbatim>\<open>setInterval\<close> is armed, how the returned promise has settled (a
  promise settles once: later calls of \<^verbatim>\<open>resolve\<close> and \<^verbatim>\<open>reject\<close> are ignored), and
  whether a child process or conversion was started at all.
\<close>

record shared =
  fsys :: filesystem
  trace :: "effect list"
  uncaught :: bool

record local =
  originalSize :: nat
  progress :: real
  interval :: bool
  settled :: "settle option"
  child :: bool

definition emit :: "effect list \<Rightarrow> shared \<Rightarrow> shared" where
  "emit es w = w\<lparr>trace := trace w @ es\<rparr>"

definition settle_with :: "settle \<Rightarrow> local \<Rightarrow> local" where
  "settle_with r l = (case settled l of None \<Rightarrow> l\<lparr>settled := Some r\<rparr> | Some _ \<Rightarrow> l)"

text \<open>
  \<^verbatim>\<open>fs.existsSync(outputPath) ? fs.statSync(outputPath).size : originalSize\<close>.
\<close>

definition sampled_size :: "filesystem \<Rightarrow> string \<Rightarrow> nat \<Rightarrow> nat" where
  "sampled_size f out orig = (case stat_size f out of Some n \<Rightarrow> n | None \<Rightarrow> orig)"

section \<open>One task of the optimizer scripts\<close>

text \<open>
  What happens to a task after it has started is a sequence of events, each handled to its end
  before the next: the timer fires (with the value that \<^verbatim>\<open>Math.random()\<close> returns), the
  child process writes the destination file, the child emits \<^verbatim>\<open>error\<close> (it could not be
  spawned) or \<^verbatim>\<open>close\<close> (with its exit code).
\<close>

datatype proc_event = Tick real | Written bytes | ErrorEv string | CloseEv "int option"

definition spawned :: "nat \<Rightarrow> local" where
  "spawned n =
     \<lparr>originalSize = n, progress = 0, interval = True, settled = None, child = True\<rparr>"

definition thrown :: "error \<Rightarrow> local" where
  "thrown e =
     \<lparr>originalSize = 0, progress = 0, interval = False, settled = Some (Rejected e),
      child = False\<rparr>"

fun on_event ::
  "(real \<Rightarrow> local \<times> shared \<Rightarrow> local \<times> shared) \<Rightarrow> (int option \<Rightarrow> local \<times> shared \<Rightarrow> local \<times> shared)
   \<Rightarrow> string \<Rightarrow> proc_event \<Rightarrow> local \<times> shared \<Rightarrow> local \<times> shared" where
  "on_event tk cl out (Tick r) (l, w) = (if interval l then tk r (l, w) else (l, w))"
| "on_event tk cl out (Written b) (l, w) = (l, w\<lparr>fsys := tool_write out b (fsys w)\<rparr>)"
| "on_event tk cl out (ErrorEv m) (l, w) =
     (settle_with (Rejected (SpawnError m)) (l\<lparr>interval := False\<rparr>), w)"
| "on_event tk cl out (CloseEv c) (l, w) = cl c (l, w)"

definition deliver :: "('e \<Rightarrow> local \<times> shared \<Rightarrow> local \<times> shared) \<Rightarrow> local \<times> shared \<Rightarrow> 'e \<Rightarrow> local \<times> shared" where
  "deliver h s ev = (if uncaught (snd s) \<or> \<not> child (fst s) then s else h ev s)"

text \<open>
  The first script of \<^verbatim>\<open>src/unnamed/part_000\<close> (lines 47-84): no sizes, the bar is completed
  only on exit code 0.
\<close>

fun tick_legacy :: "string \<Rightarrow> real \<Rightarrow> local \<times> shared \<Rightarrow> local \<times> shared" where
  "tick_legacy name r (l, w) =
     (let p = progress l + r * 10
      in (l\<lparr>progress := p\<rparr>, emit [Progress name (min p 100) None] w))"

fun close_legacy :: "string \<Rightarrow> int option \<Rightarrow> local \<times> shared \<Rightarrow> local \<times> shared" where
  "close_legacy name code (l, w) =
     (let l = l\<lparr>interval := False\<rparr>
      in if code = Some 0
         then (settle_with Resolved l, emit [Progress name 100 None, Newline] w)
         else (settle_with (Rejected (ExitCode name code)) l, w))"

definition begin_legacy :: "string \<Rightarrow> string \<Rightarrow> string \<Rightarrow> shared \<Rightarrow> local \<times> shared" where
  "begin_legacy inp out name w =
     (spawned 0,
      emit [Exec ''gifsicle'' [''--optimize=3'', ''--lossy=80'', ''--colors=128'', ''-o'', out, inp]] w)"

definition optimizeGIF_legacy ::
  "string \<Rightarrow> string \<Rightarrow> string \<Rightarrow> proc_event list \<Rightarrow> shared \<Rightarrow> local \<times> shared" where
  "optimizeGIF_legacy inp out name evs w =
     foldl (deliver (on_event (tick_legacy name) (close_legacy name) out))
       (begin_legacy inp out name w) evs"

text \<open>
  \<^verbatim>\<open>index.js\<close> (lines 64-113). \<^verbatim>\<open>fs.statSync(inputPath)\<close> runs before \<^verbatim>\<open>spawn\<close>: when
  it throws, the promise is rejected and no process is started. The timer callback and the
  start are the same in the pooled script, but for the quality arguments.
\<close>

fun tick_sized :: "string \<Rightarrow> string \<Rightarrow> real \<Rightarrow> local \<times> shared \<Rightarrow> local \<times> shared" where
  "tick_sized out name r (l, w) =
     (let p = progress l + r * 10;
          optimizedSize = sampled_size (fsys w) out (originalSize l)
      in (l\<lparr>progress := p\<rparr>,
          emit [Progress name (min p 100) (Some (originalSize l, optimizedSize))] w))"

fun close_index :: "string \<Rightarrow> string \<Rightarrow> int option \<Rightarrow> local \<times> shared \<Rightarrow> local \<times> shared" where
  "close_index out name code (l, w) =
     (let l = l\<lparr>interval := False\<rparr>;
          optimizedSize = sampled_size (fsys w) out (originalSize l);
          w = emit [Progress name 100 (Some (originalSize l, optimizedSize)), Newline] w
      in if code = Some 0 then (settle_with Resolved l, w)
         else (settle_with (Rejected (ExitCode name code)) l, w))"

definition begin_sized :: "string list \<Rightarrow> string \<Rightarrow> string \<Rightarrow> string \<Rightarrow> shared \<Rightarrow> local \<times> shared" where
  "begin_sized quality inp out name w =
     (case stat_size (fsys w) inp of
        None \<Rightarrow> (thrown (NoEntry inp), w)
      | Some n \<Rightarrow>
          (spawned n, emit [Exec ''gifsicle'' ([''--optimize=3''] @ quality @ [''-o'', out, inp])] w))"

definition optimizeGIF_index ::
  "string \<Rightarrow> string \<Rightarrow> string \<Rightarrow> proc_event list \<Rightarrow> shared \<Rightarrow> local \<times> shared" where
  "optimizeGIF_index inp out name evs w =
     foldl (deliver (on_event (tick_sized out name) (close_index out name) out))
       (begin_sized [''--lossy=45'', ''--colors=130''] inp out name w) evs"

text \<open>
  The second script of \<^verbatim>\<open>src/unnamed/part_000\<close> (lines 205-264). Its \<^verbatim>\<open>close\<close> handler
  compares the sizes before it looks at the exit code.
\<close>

fun close_pooled ::
  "string \<Rightarrow> string \<Rightarrow> string \<Rightarrow> int option \<Rightarrow> local \<times> shared \<Rightarrow> local \<times> shared" where
  "close_pooled inp out name code (l, w) =
     (let l = l\<lparr>interval := False\<rparr>;
          optimizedSize = sampled_size (fsys w) out (originalSize l)
      in if optimizedSize \<ge> originalSize l
         then (let w = emit [SkippedLarger name] w
               in case copyFileSync inp out (fsys w) of
                    None \<Rightarrow> (l, w\<lparr>uncaught := True\<rparr>)
                  | Some f \<Rightarrow> (settle_with Resolved l, w\<lparr>fsys := f\<rparr>))
         else (let w = emit [Progress name 100 (Some (originalSize l, optimizedSize)), Newline] w
               in if code = Some 0 then (settle_with Resolved l, w)
                  else (settle_with (Rejected (ExitCode name code)) l, w)))"

definition optimizeGIF_pooled ::
  "string \<Rightarrow> string \<Rightarrow> string \<Rightarrow> proc_event list \<Rightarrow> shared \<Rightarrow> local \<times> shared" where
  "optimizeGIF_pooled inp out name evs w =
     foldl (deliver (on_event (tick_sized out name) (close_pooled inp out name) out))
       (begin_sized [''--lossy=40'', ''--colors=140''] inp out name w) evs"

section \<open>One task of the raster script\<close>

text \<open>
  \<^verbatim>\<open>convertToWebP\<close> (\<^verbatim>\<open>convert-to-webp.js\<close>, lines 76-104). The events are the timer, the
  library writing the destination file, and the promise of \<^verbatim>\<open>toFile\<close> being fulfilled or
  rejected with a message. Both branches of the \<^verbatim>\<open>try\<close> end the function normally, so its
  promise resolves; \<^verbatim>\<open>fs.statSync(outputPath)\<close> inside the \<^verbatim>\<open>try\<close> block throws into the
  \<^verbatim>\<open>catch\<close> block when the file is missing.
\<close>

datatype sharp_event = STick real | SWritten bytes | Fulfilled | Failed string

definition begin_webp :: "string \<Rightarrow> string \<Rightarrow> string \<Rightarrow> shared \<Rightarrow> local \<times> shared" where
  "begin_webp inp out name w =
     (case stat_size (fsys w) inp of
        None \<Rightarrow> (thrown (NoEntry inp), w)
      | Some n \<Rightarrow> (spawned n, emit [Sharp inp out] w))"

fun on_sharp :: "string \<Rightarrow> string \<Rightarrow> sharp_event \<Rightarrow> local \<times> shared \<Rightarrow> local \<times> shared" where
  "on_sharp out name (STick r) (l, w) = (if interval l then tick_sized out name r (l, w) else (l, w))"
| "on_sharp out name (SWritten b) (l, w) = (l, w\<lparr>fsys := tool_write out b (fsys w)\<rparr>)"
| "on_sharp out name Fulfilled (l, w) =
     (if settled l \<noteq> None then (l, w)
      else let l = l\<lparr>interval := False\<rparr>
           in case stat_size (fsys w) out of
                Some convertedSize \<Rightarrow>
                  (settle_with Resolved l,
                   emit [Progress name 100 (Some (originalSize l, convertedSize)), Newline] w)
              | None \<Rightarrow>
                  (settle_with Resolved l, emit [ErrorConverting name (NoEntry out)] w))"
| "on_sharp out name (Failed m) (l, w) =
     (if settled l \<noteq> None then (l, w)
      else (settle_with Resolved (l\<lparr>interval := False\<rparr>),
            emit [ErrorConverting name (SharpError m)] w))"


section \<open>Batches\<close>

text \<open>
  How an \<^verbatim>\<open>async\<close> function stands when the events run out: it has returned, it is still
  waiting on a promise, an exception has ended the process (an uncaught exception or an
  unhandled rejection, as Node 15 and later treat it), or \<^verbatim>\<open>process.exit\<close> was called.

  \<^verbatim>\<open>processGIFs\<close> of \<^verbatim>\<open>index.js\<close> (lines 118-143) and of the first script of
  \<^verbatim>\<open>part_000\<close> (lines 89-114) awaits each task inside \<^verbatim>\<open>try\<close>/\<^verbatim>\<open>catch\<close> before it starts
  the next. \<open>tls\<close> gives the events of each file's task. Events that arrive after the task's
  promise has settled (a \<^verbatim>\<open>close\<close> after an \<^verbatim>\<open>error\<close>) are taken before the next task
  starts: in these scripts they change no file and no promise, only the place of a late
  progress line in the trace.
\<close>

datatype ending = Returned | Waiting | Crashed | Exited nat

fun for_await ::
  "(task \<Rightarrow> 'e list \<Rightarrow> shared \<Rightarrow> local \<times> shared) \<Rightarrow> (string \<Rightarrow> 'e list) \<Rightarrow> task list \<Rightarrow> shared
   \<Rightarrow> ending \<times> shared" where
  "for_await opt tls [] w = (Returned, w)"
| "for_await opt tls (t # ts) w =
     (let (l, w) = opt t (tls (fileName t)) w
      in if uncaught w then (Crashed, w)
         else case settled l of
                None \<Rightarrow> (Waiting, w)
              | Some Resolved \<Rightarrow> for_await opt tls ts w
              | Some (Rejected e) \<Rightarrow> for_await opt tls ts (emit [FailedToOptimize (fileName t)] w))"

definition processGIFs_sequential ::
  "(task \<Rightarrow> proc_event list \<Rightarrow> shared \<Rightarrow> local \<times> shared) \<Rightarrow> string \<Rightarrow> string
   \<Rightarrow> (string \<Rightarrow> proc_event list) \<Rightarrow> shared \<Rightarrow> ending \<times> shared" where
  "processGIFs_sequential opt inputDir outputDir tls w =
     (case readdirSync (fsys w) inputDir of
        None \<Rightarrow> (Crashed, emit [ReadDir inputDir] w)
      | Some entries \<Rightarrow>
          (let w = emit [ReadDir inputDir] w;
               gifFiles = filter is_gif entries;
               totalFiles = length gifFiles
           in if totalFiles = 0 then (Returned, emit [NoFilesFound] w)
              else case for_await opt tls (gif_tasks inputDir outputDir gifFiles)
                          (emit [Found totalFiles] w) of
                     (Returned, w) \<Rightarrow> (Returned, emit [AllDone] w)
                   | (e, w) \<Rightarrow> (e, w)))"

text \<open>
  \<^verbatim>\<open>processGIFs\<close> of the second script of \<^verbatim>\<open>part_000\<close> (lines 269-299) and
  \<^verbatim>\<open>processImages\<close> (\<^verbatim>\<open>convert-to-webp.js\<close>, lines 109-142) hand every task to
  \<^verbatim>\<open>pLimit(4)\<close> and await \<^verbatim>\<open>Promise.all\<close> inside \<^verbatim>\<open>try\<close>/\<^verbatim>\<open>catch\<close>. The tasks run
  interleaved: an event belongs to one task, named by its file. When the limiter calls the
  function of a task (\<open>Begin\<close>) is left to the environment, within what the limiter admits.

  \<^verbatim>\<open>Promise.all\<close> rejects when the first of its promises rejects and resolves when all
  have resolved; \<open>awaited\<close> is its settlement, on which the \<^verbatim>\<open>try\<close> block prints the closing
  line and the \<^verbatim>\<open>catch\<close> block the error.
\<close>

datatype 'e pool_event = Begin string | Ev string 'e

record pool =
  world :: shared
  locals :: "string \<rightharpoonup> local"
  awaited :: "settle option"

definition all_resolved :: "task list \<Rightarrow> (string \<rightharpoonup> local) \<Rightarrow> bool" where
  "all_resolved ts ls =
     list_all (\<lambda>t. case ls (fileName t) of None \<Rightarrow> False | Some l \<Rightarrow> settled l = Some Resolved) ts"

definition promise_all :: "task list \<Rightarrow> settle option \<Rightarrow> settle option \<Rightarrow> pool \<Rightarrow> pool" where
  "promise_all ts before after s =
     (case (awaited s, before, after) of
        (None, None, Some (Rejected e)) \<Rightarrow>
          s\<lparr>awaited := Some (Rejected e), world := emit [ErrorDuring e] (world s)\<rparr>
      | (None, None, Some Resolved) \<Rightarrow>
          (if all_resolved ts (locals s)
           then s\<lparr>awaited := Some Resolved, world := emit [AllDone] (world s)\<rparr>
           else s)
      | _ \<Rightarrow> s)"

text \<open>
  Modelled from the spec: the limiter that \<^verbatim>\<open>pLimit(4)\<close> returns, from the package
  \<^verbatim>\<open>p-limit\<close>, whose code is not part of the repository. The specification (section 4.2)
  gives its contract: at most N work units run concurrently however many are submitted;
  excess submissions queue in submission order and begin when a slot frees. The scripts
  submit all tasks at once, in the order of the listing. \<open>queued\<close> are the submitted tasks
  that have not begun, \<open>in_flight\<close> those that have begun and whose promise has not settled;
  the limiter lets a task begin when it is the first of the queue and fewer than N tasks are
  in flight.
\<close>

definition queued :: "task list \<Rightarrow> (string \<rightharpoonup> local) \<Rightarrow> task list" where
  "queued ts ls = filter (\<lambda>t. case ls (fileName t) of None \<Rightarrow> True | Some l \<Rightarrow> False) ts"

definition in_flight :: "task list \<Rightarrow> (string \<rightharpoonup> local) \<Rightarrow> task list" where
  "in_flight ts ls =
     filter (\<lambda>t. case ls (fileName t) of None \<Rightarrow> False | Some l \<Rightarrow> settled l = None) ts"

definition admits :: "nat \<Rightarrow> task list \<Rightarrow> (string \<rightharpoonup> local) \<Rightarrow> string \<Rightarrow> task option" where
  "admits n ts ls f =
     (case queued ts ls of
        [] \<Rightarrow> None
      | t # _ \<Rightarrow> if fileName t = f \<and> length (in_flight ts ls) < n then Some t else None)"

text \<open>
  One step of a pooled run. \<open>Begin f\<close>: the limiter calls the function of task \<open>f\<close>, if it
  admits it. \<open>Ev f e\<close>: an event of the task \<open>f\<close>, if that task has begun. After either, the
  reactions of \<^verbatim>\<open>Promise.all\<close> and of the \<^verbatim>\<open>try\<close>/\<^verbatim>\<open>catch\<close> around its await run.
\<close>

fun pool_step ::
  "(task \<Rightarrow> shared \<Rightarrow> local \<times> shared) \<Rightarrow> (task \<Rightarrow> 'e \<Rightarrow> local \<times> shared \<Rightarrow> local \<times> shared)
   \<Rightarrow> nat \<Rightarrow> task list \<Rightarrow> pool \<Rightarrow> 'e pool_event \<Rightarrow> pool" where
  "pool_step bg h n ts s (Begin f) =
     (if uncaught (world s) then s
      else case admits n ts (locals s) f of
             Some t \<Rightarrow>
               (let (l, w) = bg t (world s)
                in promise_all ts None (settled l) (s\<lparr>world := w, locals := (locals s)(f \<mapsto> l)\<rparr>))
           | None \<Rightarrow> s)"
| "pool_step bg h n ts s (Ev f e) =
     (case (find (\<lambda>t. fileName t = f) ts, locals s f) of
        (Some t, Some l) \<Rightarrow>
          (let (l', w) = deliver (h t) (l, world s) e
           in promise_all ts (settled l) (settled l') (s\<lparr>world := w, locals := (locals s)(f \<mapsto> l')\<rparr>))
      | _ \<Rightarrow> s)"

definition run_pool ::
  "(task \<Rightarrow> shared \<Rightarrow> local \<times> shared) \<Rightarrow> (task \<Rightarrow> 'e \<Rightarrow> local \<times> shared \<Rightarrow> local \<times> shared)
   \<Rightarrow> nat \<Rightarrow> task list \<Rightarrow> 'e pool_event list \<Rightarrow> shared \<Rightarrow> pool" where
  "run_pool bg h n ts evs w =
     foldl (pool_step bg h n ts) \<lparr>world = w, locals = Map.empty, awaited = None\<rparr> evs"

definition pool_ending :: "pool \<Rightarrow> ending" where
  "pool_ending s =
     (if uncaught (world s) then Crashed
      else case awaited s of None \<Rightarrow> Waiting | Some _ \<Rightarrow> Returned)"

text \<open>
  The function that each script hands to the limiter for a task, and the handlers of the
  task's events.
\<close>

definition gif_begin :: "task \<Rightarrow> shared \<Rightarrow> local \<times> shared" where
  "gif_begin t =
     begin_sized [''--lossy=40'', ''--colors=140''] (inputPath t) (outputPath t) (fileName t)"

definition gif_handle :: "task \<Rightarrow> proc_event \<Rightarrow> local \<times> shared \<Rightarrow> local \<times> shared" where
  "gif_handle t =
     on_event (tick_sized (outputPath t) (fileName t))
       (close_pooled (inputPath t) (outputPath t) (fileName t)) (outputPath t)"

definition webp_begin :: "task \<Rightarrow> shared \<Rightarrow> local \<times> shared" where
  "webp_begin t = begin_webp (inputPath t) (outputPath t) (fileName t)"

definition webp_handle :: "task \<Rightarrow> sharp_event \<Rightarrow> local \<times> shared \<Rightarrow> local \<times> shared" where
  "webp_handle t = on_sharp (outputPath t) (fileName t)"

definition processGIFs_pooled ::
  "string \<Rightarrow> string \<Rightarrow> proc_event pool_event list \<Rightarrow> shared \<Rightarrow> ending \<times> pool" where
  "processGIFs_pooled inputDir outputDir evs w =
     (case readdirSync (fsys w) inputDir of
        None \<Rightarrow> (Crashed, \<lparr>world = emit [ReadDir inputDir] w, locals = Map.empty, awaited = None\<rparr>)
      | Some entries \<Rightarrow>
          (let w = emit [ReadDir inputDir] w;
               gifFiles = filter is_gif entries;
               totalFiles = length gifFiles
           in if totalFiles = 0
              then (Returned, \<lparr>world = emit [NoFilesFound] w, locals = Map.empty, awaited = None\<rparr>)
              else let s = run_pool gif_begin gif_handle 4
                             (gif_tasks inputDir outputDir gifFiles) evs (emit [Found totalFiles] w)
                   in (pool_ending s, s)))"

definition processImages ::
  "string \<Rightarrow> string \<Rightarrow> sharp_event pool_event list \<Rightarrow> shared \<Rightarrow> ending \<times> pool" where
  "processImages inputDir outputDir evs w =
     (case readdirSync (fsys w) inputDir of
        None \<Rightarrow> (Crashed, \<lparr>world = emit [ReadDir inputDir] w, locals = Map.empty, awaited = None\<rparr>)
      | Some entries \<Rightarrow>
          (let w = emit [ReadDir inputDir] w;
               imageFiles = filter is_image entries;
               totalFiles = length imageFiles
           in if totalFiles = 0
              then (Returned, \<lparr>world = emit [NoFilesFound] w, locals = Map.empty, awaited = None\<rparr>)
              else let s = run_pool webp_begin webp_handle 4
                             (image_tasks inputDir outputDir imageFiles) evs (emit [Found totalFiles] w)
                   in (pool_ending s, s)))"

section \<open>The scripts\<close>

text \<open>
  Each script ensures the output directory; the two later ones first end with
  \<^verbatim>\<open>process.exit(1)\<close> when the input directory does not exist. The optimizer scripts spawn
  \<^verbatim>\<open>gifsicle --version\<close> and register two handlers: \<^verbatim>\<open>error\<close> prints that the tool is not
  installed, \<^verbatim>\<open>close\<close> calls \<^verbatim>\<open>processGIFs\<close> when the code is 0. \<open>check\<close> is the sequence of
  events of that process. The raster script calls \<^verbatim>\<open>processImages\<close> directly.
\<close>

definition ensure_output :: "string \<Rightarrow> filesystem \<Rightarrow> filesystem" where
  "ensure_output outputDir f = (if existsSync f outputDir then f else mkdirSync outputDir f)"

fun on_check :: "(shared \<Rightarrow> ending \<times> shared) \<Rightarrow> ending \<times> shared \<Rightarrow> proc_event \<Rightarrow> ending \<times> shared" where
  "on_check batch (e, w) (ErrorEv m) = (if e = Crashed then (e, w) else (e, emit [NotInstalled] w))"
| "on_check batch (e, w) (CloseEv code) =
     (if e = Crashed then (e, w) else if code = Some 0 then batch w else (e, w))"
| "on_check batch (e, w) (Tick r) = (e, w)"
| "on_check batch (e, w) (Written b) = (e, w)"

definition checkGifsicle ::
  "(shared \<Rightarrow> ending \<times> shared) \<Rightarrow> string \<Rightarrow> proc_event list \<Rightarrow> filesystem \<Rightarrow> ending \<times> shared" where
  "checkGifsicle batch outputDir check f =
     foldl (on_check batch)
       (Returned, \<lparr>fsys = ensure_output outputDir f,
                   trace = [Exec ''gifsicle'' [''--version'']], uncaught = False\<rparr>) check"

definition script_legacy ::
  "string \<Rightarrow> string \<Rightarrow> proc_event list \<Rightarrow> (string \<Rightarrow> proc_event list) \<Rightarrow> filesystem \<Rightarrow> ending \<times> shared" where
  "script_legacy inputDir outputDir check tls f =
     checkGifsicle
       (processGIFs_sequential (\<lambda>t. optimizeGIF_legacy (inputPath t) (outputPath t) (fileName t))
          inputDir outputDir tls)
       outputDir check f"

definition script_index ::
  "string \<Rightarrow> string \<Rightarrow> proc_event list \<Rightarrow> (string \<Rightarrow> proc_event list) \<Rightarrow> filesystem \<Rightarrow> ending \<times> shared" where
  "script_index inputDir outputDir check tls f =
     checkGifsicle
       (processGIFs_sequential (\<lambda>t. optimizeGIF_index (inputPath t) (outputPath t) (fileName t))
          inputDir outputDir tls)
       outputDir check f"

definition script_pooled ::
  "string \<Rightarrow> string \<Rightarrow> proc_event list \<Rightarrow> proc_event pool_event list \<Rightarrow> filesystem \<Rightarrow> ending \<times> shared" where
  "script_pooled inputDir outputDir check evs f =
     (if \<not> existsSync f inputDir
      then (Exited 1, \<lparr>fsys = f, trace = [InputDirMissing inputDir], uncaught = False\<rparr>)
      else checkGifsicle
             (\<lambda>w. case processGIFs_pooled inputDir outputDir evs w of (e, s) \<Rightarrow> (e, world s))
             outputDir check f)"

definition script_webp ::
  "string \<Rightarrow> string \<Rightarrow> sharp_event pool_event list \<Rightarrow> filesystem \<Rightarrow> ending \<times> shared" where
  "script_webp inputDir outputDir evs f =
     (if \<not> existsSync f inputDir
      then (Exited 1, \<lparr>fsys = f, trace = [InputDirMissing inputDir], uncaught = False\<rparr>)
      else case processImages inputDir outputDir evs
                  \<lparr>fsys = ensure_output outputDir f, trace = [], uncaught = False\<rparr> of
             (e, s) \<Rightarrow> (e, world s))"


section \<open>Vocabulary of the properties\<close>

text \<open>
  Kinds of events. \<open>quiet\<close> events are those of a child process that has not ended: timer
  ticks and writes. \<open>fair\<close> events carry a value that \<^verbatim>\<open>Math.random()\<close> can return, at
  least 0 and below 1. \<open>launch_failed\<close> events are the \<^verbatim>\<open>error\<close> events.
\<close>

fun quiet :: "proc_event \<Rightarrow> bool" where
  "quiet (Tick r) = True"
| "quiet (Written b) = True"
| "quiet (ErrorEv m) = False"
| "quiet (CloseEv c) = False"




fun launch_failed :: "proc_event \<Rightarrow> bool" where
  "launch_failed (ErrorEv m) = True"
| "launch_failed (Tick r) = False"
| "launch_failed (Written b) = False"
| "launch_failed (CloseEv c) = False"


fun is_exec :: "effect \<Rightarrow> bool" where
  "is_exec (Exec c args) = True"
| "is_exec e = False"

definition index_task :: "task \<Rightarrow> proc_event list \<Rightarrow> shared \<Rightarrow> local \<times> shared" where
  "index_task t = optimizeGIF_index (inputPath t) (outputPath t) (fileName t)"

definition index_exec :: "task \<Rightarrow> effect" where
  "index_exec t =
     Exec ''gifsicle''
       [''--optimize=3'', ''--lossy=45'', ''--colors=130'', ''-o'', outputPath t, inputPath t]"

definition legacy_task :: "task \<Rightarrow> proc_event list \<Rightarrow> shared \<Rightarrow> local \<times> shared" where
  "legacy_task t = optimizeGIF_legacy (inputPath t) (outputPath t) (fileName t)"


definition precheck_only :: "string \<Rightarrow> proc_event list \<Rightarrow> filesystem \<Rightarrow> ending \<times> shared" where
  "precheck_only outputDir check f =
     (Returned,
      \<lparr>fsys = ensure_output outputDir f,
       trace = Exec ''gifsicle'' [''--version'']
                # replicate (length (filter launch_failed check)) NotInstalled,
       uncaught = False\<rparr>)"



definition begun :: "pool \<Rightarrow> string \<Rightarrow> bool" where
  "begun s f = (case locals s f of None \<Rightarrow> False | Some l \<Rightarrow> True)"






text \<open>
  Small states for the examples: one source file of three bytes; two source files; one image
  for the raster script; an input directory without a matching name (\<^verbatim>\<open>.gif\<close> is a hidden
  file without extension); an input directory that holds a subdirectory named \<^verbatim>\<open>d.gif\<close>
  beside a source file.
\<close>

definition demo_fs :: filesystem where
  "demo_fs = \<lparr>files = [''/app/input/a.gif'' \<mapsto> ''abc''],
              dirs = [''/app/input'' \<mapsto> [''a.gif''], ''/app/output'' \<mapsto> []],
              dir_size = (\<lambda>p. 4096), denied = (\<lambda>p. False)\<rparr>"

definition demo_world :: shared where
  "demo_world = \<lparr>fsys = demo_fs, trace = [], uncaught = False\<rparr>"

definition demo_two :: shared where
  "demo_two =
     \<lparr>fsys = \<lparr>files = [''/app/input/a.gif'' \<mapsto> ''abc'', ''/app/input/b.gif'' \<mapsto> ''xyz''],
               dirs = [''/app/input'' \<mapsto> [''a.gif'', ''b.gif''], ''/app/output'' \<mapsto> []],
               dir_size = (\<lambda>p. 4096), denied = (\<lambda>p. False)\<rparr>,
      trace = [], uncaught = False\<rparr>"

definition demo_images :: shared where
  "demo_images =
     \<lparr>fsys = \<lparr>files = [''/app/images/p.png'' \<mapsto> ''abcde''],
               dirs = [''/app/images'' \<mapsto> [''p.png''], ''/app/webp-images'' \<mapsto> []],
               dir_size = (\<lambda>p. 4096), denied = (\<lambda>p. False)\<rparr>,
      trace = [], uncaught = False\<rparr>"

definition demo_dir :: shared where
  "demo_dir =
     \<lparr>fsys = \<lparr>files = [''/app/input/a.gif'' \<mapsto> ''abc''],
               dirs = [''/app/input'' \<mapsto> [''d.gif'', ''a.gif''], ''/app/output'' \<mapsto> [],
                       ''/app/input/d.gif'' \<mapsto> []],
               dir_size = (\<lambda>p. 4096), denied = (\<lambda>p. False)\<rparr>,
      trace = [], uncaught = False\<rparr>"

definition demo_empty :: filesystem where
  "demo_empty = \<lparr>files = [''/app/input/notes.txt'' \<mapsto> ''x''],
                 dirs = [''/app/input'' \<mapsto> [''notes.txt'', ''.gif'']],
                 dir_size = (\<lambda>p. 4096), denied = (\<lambda>p. False)\<rparr>"

chapter \<open>Properties\<close>

section \<open>Size formatting: proofs\<close>

lemma show_nat_small: "n < 10 \<Longrightarrow> show_nat n = [digit_char n]"
  by (simp add: show_nat.simps)

lemma show_nat_big:
  "10 \<le> n \<Longrightarrow> show_nat n = show_nat (n div 10) @ [digit_char (n mod 10)]"
  by (subst show_nat.simps) simp

lemma length_show_nat_pos: "0 < length (show_nat n)"
  by (cases "n < 10") (simp_all add: show_nat_small show_nat_big)

lemma split_tenths:
  "(let m = show_nat n;
        m = (if length m \<le> 1 then replicate (2 - length m) CHR ''0'' @ m else m);
        k = length m
    in take (k - 1) m @ ''.'' @ drop (k - 1) m)
   = show_nat (n div 10) @ ''.'' @ show_nat (n mod 10)"
proof (cases "n < 10")
  case True
  then show ?thesis
    by (simp add: show_nat_small digit_char_def)
next
  case False
  then have big: "show_nat n = show_nat (n div 10) @ [digit_char (n mod 10)]"
    by (simp add: show_nat_big)
  have low: "show_nat (n mod 10) = [digit_char (n mod 10)]"
    by (simp add: show_nat_small)
  have pos: "0 < length (show_nat (n div 10))"
    by (rule length_show_nat_pos)
  show ?thesis
    using pos by (simp add: big low Let_def)
qed

lemma round_tenths:
  assumes "0 < u"
  shows "nat \<lfloor>real b / real u * 10 + 1 / 2\<rfloor> = (20 * b + u) div (2 * u)"
proof -
  have "real b / real u * 10 + 1 / 2 = real (20 * b + u) / real (2 * u)"
    using assms by (simp add: field_simps)
  then have "\<lfloor>real b / real u * 10 + 1 / 2\<rfloor> = \<lfloor>real (20 * b + u) / real (2 * u)\<rfloor>"
    by simp
  also have "\<dots> = int ((20 * b + u) div (2 * u))"
    by (rule floor_divide_of_nat_eq)
  finally show ?thesis by simp
qed

lemma toFixed1_ratio:
  assumes "0 < u"
  shows "toFixed1 (real b / real u) = one_decimal b u"
  unfolding toFixed1_def one_decimal_def round_tenths [OF assms]
  using split_tenths [of "(20 * b + u) div (2 * u)"] by (simp add: Let_def)

lemma toFixed1_kb: "toFixed1 (real b / 1024) = one_decimal b 1024"
  using toFixed1_ratio [of 1024 b] by simp

lemma toFixed1_mb: "toFixed1 (real b / 1024 / 1024) = one_decimal b (1024 * 1024)"
  using toFixed1_ratio [of "1024 * 1024" b] by simp

lemma toFixed1_gb:
  "toFixed1 (real b / 1024 / 1024 / 1024) = one_decimal b (1024 * 1024 * 1024)"
  using toFixed1_ratio [of "1024 * 1024 * 1024" b] by simp

text \<open>
  Claim C8. For every natural number of bytes, \<^verbatim>\<open>formatFileSize\<close> returns the byte count
  with unit B below 1024 bytes; otherwise kilobytes with one decimal while the size is
  below 1024 KB; otherwise megabytes with one decimal while it is below 1024 MB; otherwise
  gigabytes with one decimal. The decimal is the quotient rounded to the nearest tenth.
\<close>

theorem formatFileSize_size_rule: "formatFileSize b = size_rule b"
proof -
  have kb: "(real b / 1024 < 1024) = (b < 1024 * 1024)"
    by (simp add: field_simps)
  have mb: "(real b / 1024 / 1024 < 1024) = (b < 1024 * 1024 * 1024)"
    by (simp add: field_simps)
  show ?thesis
    unfolding formatFileSize_def size_rule_def Let_def kb mb toFixed1_kb toFixed1_mb toFixed1_gb
    by (rule refl)
qed

theorem formatFileSize_size_rule_witness:
  "formatFileSize 1023 = ''1023 B'' \<and> formatFileSize 500000 = ''488.3 KB''
   \<and> formatFileSize 1048575 = ''1024.0 KB'' \<and> formatFileSize 1048576 = ''1.0 MB''
   \<and> formatFileSize 1610612736 = ''1.5 GB''"
  using formatFileSize_size_rule [of 1023] formatFileSize_size_rule [of 500000]
    formatFileSize_size_rule [of 1048575] formatFileSize_size_rule [of 1048576]
    formatFileSize_size_rule [of 1610612736]
  by (simp add: size_rule_def one_decimal_def show_nat_small show_nat_big digit_char_def)

section \<open>Destination paths\<close>

lemma path_join_inject: "(path_join d f = path_join d g) = (f = g)"
  by (simp add: path_join_def)

lemma extname_split:
  assumes "extname p \<noteq> []"
  shows "\<exists>stem. stem \<noteq> [] \<and> p = stem @ extname p"
proof -
  let ?e = "takeWhile (\<lambda>c. c \<noteq> CHR ''.'') (rev p)"
  let ?d = "dropWhile (\<lambda>c. c \<noteq> CHR ''.'') (rev p)"
  from assms have dot: "CHR ''.'' \<in> set p" and len: "length ?e + 1 \<noteq> length p"
    and ext: "extname p = CHR ''.'' # rev ?e"
    by (auto simp: extname_def Let_def split: if_splits)
  from dot have "?d \<noteq> []" by (simp add: dropWhile_eq_Nil_conv)
  then obtain r where d: "?d = CHR ''.'' # r"
    using hd_dropWhile [of "\<lambda>c. c \<noteq> CHR ''.''" "rev p"] by (cases ?d) auto
  have "rev p = ?e @ ?d" by simp
  then have "rev p = ?e @ CHR ''.'' # r" using d by simp
  then have "rev (rev p) = rev (?e @ CHR ''.'' # r)" by (rule arg_cong)
  then have p: "p = rev r @ CHR ''.'' # rev ?e" by simp
  from p have "length p = length r + 1 + length ?e"
    by (metis add.commute length_Cons length_append length_rev plus_1_eq_Suc add.assoc)
  with len have "r \<noteq> []" by auto
  with p ext show ?thesis by auto
qed

lemma is_image_ext: "is_image f \<Longrightarrow> extname f \<noteq> []"
  by (auto simp: is_image_def Let_def toLowerCase_def suffix_def)

lemma basename_extname:
  assumes "extname p \<noteq> []"
  shows "p = basename p (extname p) @ extname p"
proof -
  from extname_split [OF assms] obtain stem where stem: "stem \<noteq> []" "p = stem @ extname p"
    by blast
  then have suf: "suffix (extname p) p" by (metis suffixI)
  from stem have ne: "extname p \<noteq> p" by (metis append_self_conv2)
  from stem have le: "length (extname p) \<le> length p"
    by (metis length_append le_add2)
  have "take (length p - length (extname p)) p = stem"
    using stem by (metis append_eq_conv_conj length_append add_diff_cancel_right')
  with assms suf ne le stem show ?thesis
    by (simp add: basename_def)
qed

lemma distinct_map_inj:
  assumes "inj g"
  shows "distinct (map (\<lambda>x. g (h x)) xs) = distinct (map h xs)"
proof -
  have "map (\<lambda>x. g (h x)) xs = map g (map h xs)" by simp
  then show ?thesis
    using assms by (metis distinct_map inj_on_subset subset_UNIV)
qed

lemma webp_name_inj: "inj (\<lambda>stem. path_join d (stem @ ''.webp''))"
  by (rule injI) (simp add: path_join_def)

text \<open>
  Claim C9, as amended. On the optimizer path the destination is the output directory joined
  with the file's own name, so distinct names give distinct destinations. On the raster path
  the destination is the output directory joined with the name whose extension is replaced
  by \<^verbatim>\<open>.webp\<close>: the destinations of a batch are pairwise distinct exactly when the names
  without their extensions are, and every matching name is that stem followed by its
  extension.
\<close>

theorem destination_paths:
  "(distinct gifFiles \<longrightarrow> distinct (map outputPath (gif_tasks inputDir outputDir gifFiles)))
   \<and> distinct (map outputPath (image_tasks inputDir outputDir imageFiles))
       = distinct (map (\<lambda>file. basename file (extname file)) imageFiles)
   \<and> (is_image file \<longrightarrow> file = basename file (extname file) @ extname file)"
proof (intro conjI impI)
  assume "distinct gifFiles"
  then show "distinct (map outputPath (gif_tasks inputDir outputDir gifFiles))"
    by (simp add: gif_tasks_def comp_def distinct_map inj_on_def path_join_inject)
next
  have "map outputPath (image_tasks inputDir outputDir imageFiles)
      = map (\<lambda>file. path_join outputDir (basename file (extname file) @ ''.webp'')) imageFiles"
    by (simp add: image_tasks_def comp_def)
  then show "distinct (map outputPath (image_tasks inputDir outputDir imageFiles))
       = distinct (map (\<lambda>file. basename file (extname file)) imageFiles)"
    using distinct_map_inj [OF webp_name_inj, of outputDir "\<lambda>file. basename file (extname file)" imageFiles]
    by simp
next
  assume "is_image file"
  then show "file = basename file (extname file) @ extname file"
    by (intro basename_extname is_image_ext)
qed

text \<open>
  Claim C9 as stated fails on the raster path: \<^verbatim>\<open>a.jpg\<close> and \<^verbatim>\<open>a.png\<close> both match the
  allow-list, are distinct sources, and get the same destination \<^verbatim>\<open>a.webp\<close>.
\<close>

theorem destination_paths_counterexample:
  "filter is_image [''a.jpg'', ''a.png''] = [''a.jpg'', ''a.png'']
   \<and> map outputPath (image_tasks ''/app/images'' ''/app/webp-images'' [''a.jpg'', ''a.png''])
       = [''/app/webp-images/a.webp'', ''/app/webp-images/a.webp'']
   \<and> map inputPath (image_tasks ''/app/images'' ''/app/webp-images'' [''a.jpg'', ''a.png''])
       = [''/app/images/a.jpg'', ''/app/images/a.png'']"
  by (simp add: image_tasks_def is_image_def basename_def extname_def path_join_def
      toLowerCase_def to_lower_char_def suffix_def)

theorem destination_paths_witness:
  "distinct [''a.gif'', ''b.gif''] \<and>
   distinct (map outputPath (gif_tasks ''/app/input'' ''/app/output'' [''a.gif'', ''b.gif'']))
   \<and> is_image ''photo.PNG'' \<and> ''photo.PNG'' = basename ''photo.PNG'' (extname ''photo.PNG'') @ extname ''photo.PNG''"
  using destination_paths [of "[''a.gif'', ''b.gif'']" "''/app/input''" "''/app/output''" "[]" "''photo.PNG''"]
  by (simp add: is_image_def extname_def toLowerCase_def to_lower_char_def suffix_def)


section \<open>Tasks of the optimizer scripts\<close>

lemma deliver_live: "\<not> uncaught (snd s) \<Longrightarrow> child (fst s) \<Longrightarrow> deliver h s ev = h ev s"
  by (simp add: deliver_def)

lemma stat_size_file: "files f p = Some b \<Longrightarrow> stat_size f p = Some (length b)"
  by (simp add: stat_size_def)

lemma tool_write_fields [simp]:
  "dirs (tool_write p b f) = dirs f" "denied (tool_write p b f) = denied f"
  "dir_size (tool_write p b f) = dir_size f"
  by (simp_all add: tool_write_def writeFile_def)

lemma tool_write_other: "q \<noteq> p \<Longrightarrow> files (tool_write p b f) q = files f q"
  by (simp add: tool_write_def writeFile_def)

lemma writable_same:
  "dirs f' = dirs f \<Longrightarrow> denied f' = denied f \<Longrightarrow> writable f' p = writable f p"
  by (simp add: writable_def split: option.splits)

lemma begin_sized_ok:
  "stat_size (fsys w) inp = Some n \<Longrightarrow>
   begin_sized q inp out name w =
     (spawned n, emit [Exec ''gifsicle'' ([''--optimize=3''] @ q @ [''-o'', out, inp])] w)"
  by (simp add: begin_sized_def)

lemma quiet_prefix:
  assumes "stat_size (fsys w) inp = Some n" "\<not> uncaught w" "list_all quiet pre"
    and "foldl (deliver (on_event (tick_sized out name) cl out)) (begin_sized q inp out name w) pre = (l, w')"
  shows "settled l = None \<and> interval l \<and> child l \<and> originalSize l = n \<and> \<not> uncaught w'
         \<and> dirs (fsys w') = dirs (fsys w) \<and> denied (fsys w') = denied (fsys w)
         \<and> (inp \<noteq> out \<longrightarrow> files (fsys w') inp = files (fsys w) inp)"
  using assms(3,4)
proof (induction pre arbitrary: l w' rule: rev_induct)
  case Nil
  then show ?case
    using assms(1,2) by (auto simp: begin_sized_ok spawned_def emit_def)
next
  case (snoc ev pre)
  obtain l0 w0 where run: "foldl (deliver (on_event (tick_sized out name) cl out)) (begin_sized q inp out name w) pre = (l0, w0)"
    by (cases "foldl (deliver (on_event (tick_sized out name) cl out)) (begin_sized q inp out name w) pre")
  from snoc.prems(1) have q: "list_all quiet pre" "quiet ev" by simp_all
  from snoc.IH [OF q(1) run] have ih: "settled l0 = None" "interval l0" "originalSize l0 = n"
    "\<not> uncaught w0" "child l0" "dirs (fsys w0) = dirs (fsys w)" "denied (fsys w0) = denied (fsys w)"
    "inp \<noteq> out \<longrightarrow> files (fsys w0) inp = files (fsys w) inp" by simp_all
  from snoc.prems(2) ih(4,5) have step: "on_event (tick_sized out name) cl out ev (l0, w0) = (l, w')"
    by (simp add: run deliver_live)
  show ?case
  proof (cases ev)
    case (Tick r)
    with step ih show ?thesis by (auto simp: Let_def emit_def)
  next
    case (Written b)
    with step ih show ?thesis by (auto simp: tool_write_other)
  next
    case (ErrorEv m)
    with q show ?thesis by simp
  next
    case (CloseEv c)
    with q show ?thesis by simp
  qed
qed

lemma legacy_prefix:
  assumes "\<not> uncaught w" "list_all quiet pre"
    and "foldl (deliver (on_event (tick_legacy name) cl out)) (begin_legacy inp out name w) pre = (l, w')"
  shows "settled l = None \<and> interval l \<and> child l \<and> \<not> uncaught w'"
  using assms(2,3)
proof (induction pre arbitrary: l w' rule: rev_induct)
  case Nil
  then show ?case
    using assms(1) by (auto simp: begin_legacy_def spawned_def emit_def)
next
  case (snoc ev pre)
  obtain l0 w0 where run: "foldl (deliver (on_event (tick_legacy name) cl out)) (begin_legacy inp out name w) pre = (l0, w0)"
    by (cases "foldl (deliver (on_event (tick_legacy name) cl out)) (begin_legacy inp out name w) pre")
  from snoc.prems(1) have q: "list_all quiet pre" "quiet ev" by simp_all
  from snoc.IH [OF q(1) run] have ih: "settled l0 = None" "interval l0" "\<not> uncaught w0" "child l0" by simp_all
  from snoc.prems(2) ih(3,4) have step: "on_event (tick_legacy name) cl out ev (l0, w0) = (l, w')"
    by (simp add: run deliver_live)
  show ?case
  proof (cases ev)
    case (Tick r)
    with step ih show ?thesis by (auto simp: Let_def emit_def)
  next
    case (Written b)
    with step ih show ?thesis by auto
  next
    case (ErrorEv m)
    with q show ?thesis by simp
  next
    case (CloseEv c)
    with q show ?thesis by simp
  qed
qed

lemma close_keeps_files:
  "fsys (snd (deliver (on_event tk (close_index out name) out) s (CloseEv code))) = fsys (snd s)"
  "fsys (snd (deliver (on_event tk (close_legacy name) out) s (CloseEv code))) = fsys (snd s)"
  by (cases s; simp add: deliver_def Let_def emit_def)+

lemma nonzero_exit_rejects:
  assumes "\<not> uncaught w" "list_all quiet pre" "code \<noteq> Some 0"
  shows "settled (fst (optimizeGIF_legacy inp out name (pre @ [CloseEv code]) w))
           = Some (Rejected (ExitCode name code))"
    and "stat_size (fsys w) inp = Some n \<Longrightarrow>
           settled (fst (optimizeGIF_index inp out name (pre @ [CloseEv code]) w))
             = Some (Rejected (ExitCode name code))"
proof -
  obtain l w' where run: "foldl (deliver (on_event (tick_legacy name) (close_legacy name) out)) (begin_legacy inp out name w) pre = (l, w')"
    by (cases "foldl (deliver (on_event (tick_legacy name) (close_legacy name) out)) (begin_legacy inp out name w) pre")
  from legacy_prefix [OF assms(1,2) run] assms(3)
  show "settled (fst (optimizeGIF_legacy inp out name (pre @ [CloseEv code]) w))
           = Some (Rejected (ExitCode name code))"
    by (simp add: optimizeGIF_legacy_def run deliver_live settle_with_def)
next
  assume inp: "stat_size (fsys w) inp = Some n"
  obtain l w' where run: "foldl (deliver (on_event (tick_sized out name) (close_index out name) out)) (begin_sized [''--lossy=45'', ''--colors=130''] inp out name w) pre = (l, w')"
    by (cases "foldl (deliver (on_event (tick_sized out name) (close_index out name) out)) (begin_sized [''--lossy=45'', ''--colors=130''] inp out name w) pre")
  from quiet_prefix [OF inp assms(1,2) run] assms(3)
  show "settled (fst (optimizeGIF_index inp out name (pre @ [CloseEv code]) w))
           = Some (Rejected (ExitCode name code))"
    by (simp add: optimizeGIF_index_def run deliver_live settle_with_def Let_def)
qed

lemmas run_simps = optimizeGIF_pooled_def optimizeGIF_index_def optimizeGIF_legacy_def
  deliver_def begin_sized_def begin_legacy_def stat_size_def demo_world_def demo_fs_def
  spawned_def thrown_def emit_def sampled_size_def copyFileSync_def writeFile_def settle_with_def
  tool_write_def writable_def

text \<open>
  Claim C1 as stated fails: it speaks of every task of the optimizer path, but only the
  second script of \<^verbatim>\<open>part_000\<close> has the fallback. In \<^verbatim>\<open>index.js\<close> and in the first script
  of \<^verbatim>\<open>part_000\<close> the tool writes four bytes for a source of three and exits with code 0:
  the promise resolves, the destination keeps the four produced bytes, and no line says that
  the optimization was skipped.
\<close>

theorem fallback_counterexample:
  "files (fsys demo_world) ''/app/input/a.gif'' = Some ''abc''
   \<and> settled (fst (optimizeGIF_index ''/app/input/a.gif'' ''/app/output/a.gif'' ''a.gif''
        [Written ''abcd'', CloseEv (Some 0)] demo_world)) = Some Resolved
   \<and> files (fsys (snd (optimizeGIF_index ''/app/input/a.gif'' ''/app/output/a.gif'' ''a.gif''
        [Written ''abcd'', CloseEv (Some 0)] demo_world))) ''/app/output/a.gif'' = Some ''abcd''
   \<and> SkippedLarger ''a.gif'' \<notin> set (trace (snd (optimizeGIF_index ''/app/input/a.gif''
        ''/app/output/a.gif'' ''a.gif'' [Written ''abcd'', CloseEv (Some 0)] demo_world)))
   \<and> settled (fst (optimizeGIF_legacy ''/app/input/a.gif'' ''/app/output/a.gif'' ''a.gif''
        [Written ''abcd'', CloseEv (Some 0)] demo_world)) = Some Resolved
   \<and> files (fsys (snd (optimizeGIF_legacy ''/app/input/a.gif'' ''/app/output/a.gif'' ''a.gif''
        [Written ''abcd'', CloseEv (Some 0)] demo_world))) ''/app/output/a.gif'' = Some ''abcd''"
  by (simp add: run_simps)

text \<open>
  Claim C1, as amended. In the second script of \<^verbatim>\<open>part_000\<close> (the pooled optimizer script),
  take a task whose source is a regular file other than the destination, whose destination
  may be written, and whose child process, after any timer ticks and writes, closes with
  exit code 0. If the destination file then exists and is at least as large as the original,
  the task's promise resolves, the destination holds the bytes of the source (the produced
  bytes are overwritten), the source is unchanged, and the only output of the handler is the
  line that says the optimization was skipped. In \<^verbatim>\<open>index.js\<close> and in the first script of
  \<^verbatim>\<open>part_000\<close> there is no fallback: whatever the events before it and whatever the exit
  code, the \<^verbatim>\<open>close\<close> handler leaves every file as it is, so the produced file stays.
\<close>

theorem fallback_copies_original:
  assumes "files (fsys w) inp = Some original" "\<not> uncaught w" "inp \<noteq> out"
    and "writable (fsys w) out" "list_all quiet pre"
    and "optimizeGIF_pooled inp out name pre w = (l, w')"
    and "files (fsys w') out = Some produced" "length original \<le> length produced"
  shows "(case optimizeGIF_pooled inp out name (pre @ [CloseEv (Some 0)]) w of
           (l'', w'') \<Rightarrow>
             settled l'' = Some Resolved
             \<and> files (fsys w'') out = Some original
             \<and> files (fsys w'') inp = Some original
             \<and> trace w'' = trace w' @ [SkippedLarger name])
       \<and> fsys (snd (optimizeGIF_index inp out name (evs @ [CloseEv code]) w))
           = fsys (snd (optimizeGIF_index inp out name evs w))
       \<and> fsys (snd (optimizeGIF_legacy inp out name (evs @ [CloseEv code]) w))
           = fsys (snd (optimizeGIF_legacy inp out name evs w))"
proof (intro conjI)
  from assms(6) have run: "foldl (deliver (on_event (tick_sized out name) (close_pooled inp out name) out))
      (begin_sized [''--lossy=40'', ''--colors=140''] inp out name w) pre = (l, w')"
    by (simp add: optimizeGIF_pooled_def)
  from quiet_prefix [OF stat_size_file [OF assms(1)] assms(2,5) run] assms(1,3)
  have inv: "settled l = None" "interval l" "originalSize l = length original"
    "\<not> uncaught w'" "files (fsys w') inp = Some original" "child l"
    "dirs (fsys w') = dirs (fsys w)" "denied (fsys w') = denied (fsys w)" by simp_all
  from assms(4) writable_same [OF inv(7,8)] have wr: "writable (fsys w') out"
    by simp
  have "optimizeGIF_pooled inp out name (pre @ [CloseEv (Some 0)]) w =
           (l\<lparr>interval := False, settled := Some Resolved\<rparr>,
            w'\<lparr>trace := trace w' @ [SkippedLarger name],
               fsys := writeFile out original (fsys w')\<rparr>)"
    using inv assms(7,8) wr
    by (simp add: optimizeGIF_pooled_def run deliver_live sampled_size_def stat_size_def emit_def
        copyFileSync_def settle_with_def)
  with assms(3) show "case optimizeGIF_pooled inp out name (pre @ [CloseEv (Some 0)]) w of
           (l'', w'') \<Rightarrow>
             settled l'' = Some Resolved
             \<and> files (fsys w'') out = Some original
             \<and> files (fsys w'') inp = Some original
             \<and> trace w'' = trace w' @ [SkippedLarger name]"
    by (simp add: writeFile_def inv)
next
  show "fsys (snd (optimizeGIF_index inp out name (evs @ [CloseEv code]) w))
           = fsys (snd (optimizeGIF_index inp out name evs w))"
    by (simp add: optimizeGIF_index_def close_keeps_files)
next
  show "fsys (snd (optimizeGIF_legacy inp out name (evs @ [CloseEv code]) w))
           = fsys (snd (optimizeGIF_legacy inp out name evs w))"
    by (simp add: optimizeGIF_legacy_def close_keeps_files)
qed

theorem fallback_copies_original_witness:
  "files (fsys demo_world) ''/app/input/a.gif'' = Some ''abc''
   \<and> writable (fsys demo_world) ''/app/output/a.gif''
   \<and> files (fsys (snd (optimizeGIF_pooled ''/app/input/a.gif'' ''/app/output/a.gif'' ''a.gif''
        [Tick (1/2), Written ''abcd''] demo_world))) ''/app/output/a.gif'' = Some ''abcd''
   \<and> settled (fst (optimizeGIF_pooled ''/app/input/a.gif'' ''/app/output/a.gif'' ''a.gif''
        [Tick (1/2), Written ''abcd'', CloseEv (Some 0)] demo_world)) = Some Resolved
   \<and> files (fsys (snd (optimizeGIF_pooled ''/app/input/a.gif'' ''/app/output/a.gif'' ''a.gif''
        [Tick (1/2), Written ''abcd'', CloseEv (Some 0)] demo_world))) ''/app/output/a.gif'' = Some ''abc''"
  using fallback_copies_original [where w = demo_world and inp = "''/app/input/a.gif''"
     and original = "''abc''" and out = "''/app/output/a.gif''"
     and pre = "[Tick (1/2), Written ''abcd'']" and name = "''a.gif''"
     and l = "fst (optimizeGIF_pooled ''/app/input/a.gif'' ''/app/output/a.gif'' ''a.gif''
                [Tick (1/2), Written ''abcd''] demo_world)"
     and w' = "snd (optimizeGIF_pooled ''/app/input/a.gif'' ''/app/output/a.gif'' ''a.gif''
                [Tick (1/2), Written ''abcd''] demo_world)"
     and produced = "''abcd''" and evs = "[]" and code = "Some 0"]
  by (simp add: run_simps)

text \<open>
  Claim C2: the code departs from it. In the pooled optimizer script the \<^verbatim>\<open>close\<close> handler
  compares the sizes before it looks at the exit code, and takes the original size for the
  size of a destination that does not exist. So a task whose process exits with code 1
  without writing anything is not rejected: the handler prints that the optimization gives a
  larger file, copies the source to the destination and resolves the promise, and the batch
  ends with the line that all files were optimized. The same happens when the process exits
  with code 1 after writing a file that is not smaller. \<^verbatim>\<open>index.js\<close> and the first script of
  \<^verbatim>\<open>part_000\<close> reject the promise on the same events. Nor is every other task unaffected:
  for a directory named \<^verbatim>\<open>d.gif\<close> the process exits with code 1, the copy of the fallback
  throws inside the handler and ends the whole run, and the task of \<^verbatim>\<open>a.gif\<close>, whose
  process then closes with code 0, is never settled.
\<close>

theorem nonzero_exit_swallowed:
  "settled (fst (optimizeGIF_pooled ''/app/input/a.gif'' ''/app/output/a.gif'' ''a.gif''
       [CloseEv (Some 1)] demo_world)) = Some Resolved
   \<and> trace (snd (optimizeGIF_pooled ''/app/input/a.gif'' ''/app/output/a.gif'' ''a.gif''
       [CloseEv (Some 1)] demo_world))
     = [Exec ''gifsicle'' [''--optimize=3'', ''--lossy=40'', ''--colors=140'', ''-o'',
                           ''/app/output/a.gif'', ''/app/input/a.gif''],
        SkippedLarger ''a.gif'']
   \<and> files (fsys (snd (optimizeGIF_pooled ''/app/input/a.gif'' ''/app/output/a.gif'' ''a.gif''
       [CloseEv (Some 1)] demo_world))) ''/app/output/a.gif'' = Some ''abc''
   \<and> fst (processGIFs_pooled ''/app/input'' ''/app/output''
       [Begin ''a.gif'', Ev ''a.gif'' (CloseEv (Some 1))] demo_world) = Returned
   \<and> awaited (snd (processGIFs_pooled ''/app/input'' ''/app/output''
       [Begin ''a.gif'', Ev ''a.gif'' (CloseEv (Some 1))] demo_world)) = Some Resolved
   \<and> last (trace (world (snd (processGIFs_pooled ''/app/input'' ''/app/output''
       [Begin ''a.gif'', Ev ''a.gif'' (CloseEv (Some 1))] demo_world)))) = AllDone
   \<and> settled (fst (optimizeGIF_pooled ''/app/input/a.gif'' ''/app/output/a.gif'' ''a.gif''
       [Written ''abcd'', CloseEv (Some 1)] demo_world)) = Some Resolved
   \<and> settled (fst (optimizeGIF_index ''/app/input/a.gif'' ''/app/output/a.gif'' ''a.gif''
       [CloseEv (Some 1)] demo_world)) = Some (Rejected (ExitCode ''a.gif'' (Some 1)))
   \<and> settled (fst (optimizeGIF_legacy ''/app/input/a.gif'' ''/app/output/a.gif'' ''a.gif''
       [CloseEv (Some 1)] demo_world)) = Some (Rejected (ExitCode ''a.gif'' (Some 1)))
   \<and> fst (processGIFs_pooled ''/app/input'' ''/app/output''
       [Begin ''d.gif'', Begin ''a.gif'', Ev ''d.gif'' (CloseEv (Some 1)),
        Ev ''a.gif'' (Written ''ab''), Ev ''a.gif'' (CloseEv (Some 0))] demo_dir) = Crashed
   \<and> map_option settled (locals (snd (processGIFs_pooled ''/app/input'' ''/app/output''
       [Begin ''d.gif'', Begin ''a.gif'', Ev ''d.gif'' (CloseEv (Some 1)),
        Ev ''a.gif'' (Written ''ab''), Ev ''a.gif'' (CloseEv (Some 0))] demo_dir)) ''a.gif'')
     = Some None"
  by code_simp

section \<open>Progress reports\<close>






lemma settle_with_fields [simp]:
  "interval (settle_with r l) = interval l" "progress (settle_with r l) = progress l"
  "originalSize (settle_with r l) = originalSize l" "child (settle_with r l) = child l"
  by (simp_all add: settle_with_def split: option.splits)



















section \<open>Batches and scripts\<close>

lemma ensure_output_dirs:
  "dirs f inputDir = Some entries \<Longrightarrow> dirs (ensure_output outputDir f) inputDir = Some entries"
  by (auto simp: ensure_output_def mkdirSync_def existsSync_def split: option.splits)

lemma ensure_output_files: "files (ensure_output outputDir f) = files f"
  by (simp add: ensure_output_def mkdirSync_def)

text \<open>
  Claim C6. When the listing of the input directory holds no entry that matches the
  allow-list, \<^verbatim>\<open>processGIFs\<close> and \<^verbatim>\<open>processImages\<close> list the directory, print that no files
  were found and return normally, with no task and no change of the file system. For the whole
  scripts, the file system at the end is the one at the start with the output directory
  ensured, which changes no file.
\<close>

theorem no_matching_files:
  "(readdirSync (fsys w) inputDir = Some entries \<and> filter is_gif entries = [] \<longrightarrow>
      processGIFs_sequential opt inputDir outputDir tls w
        = (Returned, emit [ReadDir inputDir, NoFilesFound] w))
   \<and> (readdirSync (fsys w) inputDir = Some entries \<and> filter is_gif entries = [] \<longrightarrow>
      processGIFs_pooled inputDir outputDir pevs w
        = (Returned, \<lparr>world = emit [ReadDir inputDir, NoFilesFound] w, locals = Map.empty,
                       awaited = None\<rparr>))
   \<and> (readdirSync (fsys w) inputDir = Some entries \<and> filter is_image entries = [] \<longrightarrow>
      processImages inputDir outputDir evs w
        = (Returned, \<lparr>world = emit [ReadDir inputDir, NoFilesFound] w, locals = Map.empty,
                       awaited = None\<rparr>))
   \<and> (dirs f inputDir = Some entries \<and> filter is_gif entries = [] \<longrightarrow>
      script_index inputDir outputDir [CloseEv (Some 0)] tls f
        = (Returned, \<lparr>fsys = ensure_output outputDir f,
                       trace = [Exec ''gifsicle'' [''--version''], ReadDir inputDir, NoFilesFound],
                       uncaught = False\<rparr>))
   \<and> (dirs f inputDir = Some entries \<and> filter is_image entries = [] \<longrightarrow>
      script_webp inputDir outputDir evs f
        = (Returned, \<lparr>fsys = ensure_output outputDir f,
                       trace = [ReadDir inputDir, NoFilesFound], uncaught = False\<rparr>))
   \<and> files (ensure_output outputDir f) = files f"
proof (intro conjI impI)
  assume "readdirSync (fsys w) inputDir = Some entries \<and> filter is_gif entries = []"
  then show "processGIFs_sequential opt inputDir outputDir tls w
        = (Returned, emit [ReadDir inputDir, NoFilesFound] w)"
    by (simp add: processGIFs_sequential_def emit_def)
next
  assume "readdirSync (fsys w) inputDir = Some entries \<and> filter is_gif entries = []"
  then show "processGIFs_pooled inputDir outputDir pevs w
        = (Returned, \<lparr>world = emit [ReadDir inputDir, NoFilesFound] w, locals = Map.empty,
                       awaited = None\<rparr>)"
    by (simp add: processGIFs_pooled_def emit_def)
next
  assume "readdirSync (fsys w) inputDir = Some entries \<and> filter is_image entries = []"
  then show "processImages inputDir outputDir evs w
        = (Returned, \<lparr>world = emit [ReadDir inputDir, NoFilesFound] w, locals = Map.empty,
                       awaited = None\<rparr>)"
    by (simp add: processImages_def emit_def)
next
  assume a: "dirs f inputDir = Some entries \<and> filter is_gif entries = []"
  then have "dirs (ensure_output outputDir f) inputDir = Some entries"
    by (simp add: ensure_output_dirs)
  with a show "script_index inputDir outputDir [CloseEv (Some 0)] tls f
        = (Returned, \<lparr>fsys = ensure_output outputDir f,
                       trace = [Exec ''gifsicle'' [''--version''], ReadDir inputDir, NoFilesFound],
                       uncaught = False\<rparr>)"
    by (simp add: script_index_def checkGifsicle_def processGIFs_sequential_def readdirSync_def
        emit_def)
next
  assume a: "dirs f inputDir = Some entries \<and> filter is_image entries = []"
  then have "dirs (ensure_output outputDir f) inputDir = Some entries"
    by (simp add: ensure_output_dirs)
  with a show "script_webp inputDir outputDir evs f
        = (Returned, \<lparr>fsys = ensure_output outputDir f,
                       trace = [ReadDir inputDir, NoFilesFound], uncaught = False\<rparr>)"
    by (auto simp: script_webp_def processImages_def readdirSync_def existsSync_def emit_def
        split: option.splits)
next
  show "files (ensure_output outputDir f) = files f"
    by (rule ensure_output_files)
qed

theorem no_matching_files_witness:
  "dirs demo_empty ''/app/input'' = Some [''notes.txt'', ''.gif'']
   \<and> filter is_gif [''notes.txt'', ''.gif''] = []
   \<and> filter is_image [''notes.txt'', ''.gif''] = []
   \<and> fst (script_index ''/app/input'' ''/app/output'' [CloseEv (Some 0)] (\<lambda>file. []) demo_empty) = Returned
   \<and> trace (snd (script_index ''/app/input'' ''/app/output'' [CloseEv (Some 0)] (\<lambda>file. []) demo_empty))
       = [Exec ''gifsicle'' [''--version''], ReadDir ''/app/input'', NoFilesFound]
   \<and> dirs (fsys (snd (script_index ''/app/input'' ''/app/output'' [CloseEv (Some 0)] (\<lambda>file. []) demo_empty)))
        ''/app/output'' = Some []
   \<and> trace (snd (script_webp ''/app/input'' ''/app/output'' [] demo_empty))
       = [ReadDir ''/app/input'', NoFilesFound]"
  using no_matching_files [where f = demo_empty and inputDir = "''/app/input''"
      and outputDir = "''/app/output''" and entries = "[''notes.txt'', ''.gif'']"
      and tls = "\<lambda>file. []" and evs = "[]"]
  by (simp add: demo_empty_def is_gif_def is_image_def extname_def toLowerCase_def
      to_lower_char_def suffix_def ensure_output_def existsSync_def mkdirSync_def)

lemma on_check_closed:
  assumes "CloseEv (Some 0) \<notin> set check"
  shows "foldl (on_check batch) (Returned, w) check
           = (Returned, emit (replicate (length (filter launch_failed check)) NotInstalled) w)"
  using assms
proof (induction check rule: rev_induct)
  case Nil
  then show ?case by (simp add: emit_def)
next
  case (snoc ev check)
  then have ih: "foldl (on_check batch) (Returned, w) check
           = (Returned, emit (replicate (length (filter launch_failed check)) NotInstalled) w)"
    by simp
  from snoc.prems have ev: "ev \<noteq> CloseEv (Some 0)" by auto
  show ?case
  proof (cases ev)
    case (CloseEv c)
    with ev ih show ?thesis by simp
  next
    case (ErrorEv m)
    with ih show ?thesis
      by (simp add: emit_def replicate_append_same)
  qed (use ih in simp_all)
qed

text \<open>
  Claim C7. If no \<^verbatim>\<open>close\<close> event of the version invocation carries the code 0, no batch
  work begins in any optimizer script: the run ends with the output directory ensured, the
  version invocation as the only process spawned, no directory listed, and one line that the
  tool is not installed for each \<^verbatim>\<open>error\<close> event. A tool that cannot be launched gives an
  \<^verbatim>\<open>error\<close> event, followed at most by a \<^verbatim>\<open>close\<close> event whose code is the error number,
  which is not 0.
\<close>

theorem precheck_gates_batch:
  assumes "CloseEv (Some 0) \<notin> set check"
  shows "checkGifsicle batch outputDir check f = precheck_only outputDir check f
       \<and> script_legacy inputDir outputDir check tls f = precheck_only outputDir check f
       \<and> script_index inputDir outputDir check tls f = precheck_only outputDir check f
       \<and> (existsSync f inputDir \<longrightarrow>
            script_pooled inputDir outputDir check evs f = precheck_only outputDir check f)"
proof -
  have gen: "checkGifsicle b outputDir check f = precheck_only outputDir check f" for b
    by (simp add: checkGifsicle_def precheck_only_def on_check_closed [OF assms] emit_def)
  show ?thesis
    by (simp add: gen script_legacy_def script_index_def script_pooled_def)
qed

theorem precheck_gates_batch_witness:
  "CloseEv (Some 0) \<notin> set [ErrorEv ''spawn gifsicle ENOENT'', CloseEv (Some (- 2))]
   \<and> fst (script_index ''/app/input'' ''/app/output''
            [ErrorEv ''spawn gifsicle ENOENT'', CloseEv (Some (- 2))] (\<lambda>file. [CloseEv (Some 0)]) demo_fs)
       = Returned
   \<and> trace (snd (script_index ''/app/input'' ''/app/output''
            [ErrorEv ''spawn gifsicle ENOENT'', CloseEv (Some (- 2))] (\<lambda>file. [CloseEv (Some 0)]) demo_fs))
       = [Exec ''gifsicle'' [''--version''], NotInstalled]
   \<and> files (fsys (snd (script_index ''/app/input'' ''/app/output''
            [ErrorEv ''spawn gifsicle ENOENT'', CloseEv (Some (- 2))] (\<lambda>file. [CloseEv (Some 0)]) demo_fs)))
        ''/app/output/a.gif'' = None"
  using precheck_gates_batch [where check = "[ErrorEv ''spawn gifsicle ENOENT'', CloseEv (Some (- 2))]"
      and f = demo_fs and inputDir = "''/app/input''" and outputDir = "''/app/output''"
      and tls = "\<lambda>file. [CloseEv (Some 0)]" and evs = "[]"
      and batch = "\<lambda>w. (Returned, w)"]
  by (simp add: precheck_only_def demo_fs_def ensure_output_def existsSync_def)





lemma promise_all_locals [simp]: "locals (promise_all ts b a s) = locals s"
  by (simp add: promise_all_def split: option.splits settle.splits)









section \<open>The pool\<close>


lemma pooled_sticky:
  assumes "settled l = Some x"
  shows "settled (fst (deliver (gif_handle t) (l, w) ev)) = Some x"
proof (cases ev)
  case (Tick r)
  with assms show ?thesis by (simp add: gif_handle_def deliver_def Let_def)
next
  case (Written b)
  with assms show ?thesis by (simp add: gif_handle_def deliver_def)
next
  case (ErrorEv m)
  with assms show ?thesis by (simp add: gif_handle_def deliver_def settle_with_def)
next
  case (CloseEv c)
  with assms show ?thesis
    by (simp add: gif_handle_def deliver_def settle_with_def Let_def split: option.splits)
qed

lemma webp_sticky:
  assumes "settled l = Some x"
  shows "settled (fst (deliver (webp_handle t) (l, w) ev)) = Some x"
  using assms by (cases ev) (simp_all add: webp_handle_def deliver_def Let_def)

lemma admits_SomeD:
  assumes "admits n ts ls f = Some t"
  shows "t \<in> set ts" "fileName t = f" "ls f = None" "length (in_flight ts ls) < n"
    "\<exists>rest. queued ts ls = t # rest"
proof -
  from assms obtain rest where q: "queued ts ls = t # rest"
    and f: "fileName t = f" and n: "length (in_flight ts ls) < n"
    by (auto simp: admits_def split: list.splits if_splits)
  from q have "t \<in> set (queued ts ls)" by simp
  then have "t \<in> set ts" "ls (fileName t) = None"
    by (auto simp: queued_def split: option.splits)
  with f q n show "t \<in> set ts" "fileName t = f" "ls f = None" "length (in_flight ts ls) < n"
    "\<exists>rest. queued ts ls = t # rest" by auto
qed



text \<open>The cases of one step, for the proofs of invariants.\<close>

lemma pool_step_cases:
  assumes same: "P s"
    and start: "\<And>f t l w. \<not> uncaught (world s) \<Longrightarrow> admits n ts (locals s) f = Some t
                 \<Longrightarrow> bg t (world s) = (l, w)
                 \<Longrightarrow> P (promise_all ts None (settled l) (s\<lparr>world := w, locals := (locals s)(f \<mapsto> l)\<rparr>))"
    and event: "\<And>f t l e l' w. find (\<lambda>t. fileName t = f) ts = Some t \<Longrightarrow> locals s f = Some l
                 \<Longrightarrow> deliver (h t) (l, world s) e = (l', w)
                 \<Longrightarrow> P (promise_all ts (settled l) (settled l') (s\<lparr>world := w, locals := (locals s)(f \<mapsto> l')\<rparr>))"
  shows "P (pool_step bg h n ts s ev)"
proof (cases ev)
  case (Begin f)
  show ?thesis
  proof (cases "uncaught (world s)")
    case True
    with Begin same show ?thesis by simp
  next
    case False
    show ?thesis
    proof (cases "admits n ts (locals s) f")
      case None
      with Begin same show ?thesis by simp
    next
      case (Some t)
      obtain l w where b: "bg t (world s) = (l, w)" by (cases "bg t (world s)")
      from start [OF False Some b] False Some b show ?thesis
        by (simp add: Begin)
    qed
  qed
next
  case (Ev f e)
  show ?thesis
  proof (cases "find (\<lambda>t. fileName t = f) ts")
    case None
    with Ev same show ?thesis by simp
  next
    case (Some t)
    show ?thesis
    proof (cases "locals s f")
      case None
      with Ev Some same show ?thesis by simp
    next
      case (Some l)
      obtain l' w where d: "deliver (h t) (l, world s) e = (l', w)"
        by (cases "deliver (h t) (l, world s) e")
      from event [OF \<open>find (\<lambda>t. fileName t = f) ts = Some t\<close> Some d]
        \<open>find (\<lambda>t. fileName t = f) ts = Some t\<close> Some d show ?thesis
        by (simp add: Ev)
    qed
  qed
qed






text \<open>While the copies are possible, no handler of the pooled script throws.\<close>

lemma writable_writeFile [simp]: "writable (writeFile p b f) q = writable f q"
  by (simp add: writable_def writeFile_def split: option.splits)

lemma writable_tool_write [simp]: "writable (tool_write p b f) q = writable f q"
  by (simp add: tool_write_def)















section \<open>Awaiting the tasks of a batch\<close>























section \<open>The limiter\<close>

lemma in_flight_empty [simp]: "in_flight ts Map.empty = []"
  by (simp add: in_flight_def)

lemma queued_empty [simp]: "queued ts Map.empty = ts"
  by (simp add: queued_def)

lemma length_filter_mono:
  "(\<And>x. x \<in> set xs \<Longrightarrow> P x \<Longrightarrow> Q x) \<Longrightarrow> length (filter P xs) \<le> length (filter Q xs)"
  by (induction xs) auto

lemma in_flight_event:
  assumes "ls f = Some l" "settled l \<noteq> None \<longrightarrow> settled l' \<noteq> None"
  shows "length (in_flight ts (ls(f \<mapsto> l'))) \<le> length (in_flight ts ls)"
  unfolding in_flight_def
  by (rule length_filter_mono) (use assms in \<open>auto split: option.splits if_splits\<close>)

lemma queued_event:
  assumes "ls f = Some l"
  shows "queued ts (ls(f \<mapsto> l')) = queued ts ls"
  unfolding queued_def
  by (rule filter_cong) (use assms in \<open>auto split: option.splits\<close>)

lemma in_flight_start:
  assumes "distinct (map fileName ts)"
  shows "length (in_flight ts (ls(f \<mapsto> l))) \<le> Suc (length (in_flight ts ls))"
  using assms
proof (induction ts)
  case Nil
  then show ?case by (simp add: in_flight_def)
next
  case (Cons t ts)
  show ?case
  proof (cases "fileName t = f")
    case True
    with Cons.prems have "\<forall>u\<in>set ts. fileName u \<noteq> f" by (fastforce simp: image_iff)
    then have "filter (\<lambda>t. case (ls(f \<mapsto> l)) (fileName t) of None \<Rightarrow> False | Some l \<Rightarrow> settled l = None) ts
        = filter (\<lambda>t. case ls (fileName t) of None \<Rightarrow> False | Some l \<Rightarrow> settled l = None) ts"
      by (intro filter_cong) auto
    then show ?thesis
      by (simp add: in_flight_def)
  next
    case False
    with Cons show ?thesis
      by (simp add: in_flight_def)
  qed
qed

lemma queued_start:
  assumes "distinct (map fileName ts)" "queued ts ls = t # rest"
  shows "queued ts (ls(fileName t \<mapsto> l)) = rest"
proof -
  have "queued ts (ls(fileName t \<mapsto> l))
      = filter (\<lambda>u. fileName u \<noteq> fileName t) (queued ts ls)"
    unfolding queued_def filter_filter
    by (rule filter_cong) (auto split: option.splits)
  also have "\<dots> = filter (\<lambda>u. fileName u \<noteq> fileName t) rest"
    by (simp add: assms(2))
  also have "\<dots> = rest"
  proof -
    from assms(1) have "distinct (map fileName (queued ts ls))"
      unfolding queued_def by (rule distinct_map_filter)
    with assms(2) have "\<forall>u\<in>set rest. fileName u \<noteq> fileName t" by (fastforce simp: image_iff)
    then show ?thesis by simp
  qed
  finally show ?thesis .
qed

lemma pool_step_bound:
  assumes sticky: "\<And>t l w e x. settled l = Some x \<Longrightarrow> settled (fst (deliver (h t) (l, w) e)) = Some x"
    and d: "distinct (map fileName ts)"
    and inv: "length (in_flight ts (locals s)) \<le> n \<and> suffix (queued ts (locals s)) ts"
  shows "length (in_flight ts (locals (pool_step bg h n ts s ev))) \<le> n
       \<and> suffix (queued ts (locals (pool_step bg h n ts s ev))) ts"
proof (rule pool_step_cases
    [where P = "\<lambda>s. length (in_flight ts (locals s)) \<le> n \<and> suffix (queued ts (locals s)) ts"])
  show "length (in_flight ts (locals s)) \<le> n \<and> suffix (queued ts (locals s)) ts"
    by (rule inv)
next
  fix f t l w
  assume a: "admits n ts (locals s) f = Some t"
  from admits_SomeD [OF a] obtain rest where f: "fileName t = f"
    and free: "length (in_flight ts (locals s)) < n" and q: "queued ts (locals s) = t # rest"
    by auto
  from in_flight_start [where ts = ts and ls = "locals s" and f = f and l = l, OF d] free
  have "length (in_flight ts ((locals s)(f \<mapsto> l))) \<le> n" by simp
  moreover from queued_start [where ts = ts and ls = "locals s" and t = t and rest = rest and l = l, OF d q] f have "queued ts ((locals s)(f \<mapsto> l)) = rest"
    by simp
  moreover from inv q have "suffix rest ts"
    by (auto dest: suffix_ConsD)
  ultimately show "length (in_flight ts (locals (promise_all ts None (settled l)
            (s\<lparr>world := w, locals := (locals s)(f \<mapsto> l)\<rparr>)))) \<le> n
       \<and> suffix (queued ts (locals (promise_all ts None (settled l)
            (s\<lparr>world := w, locals := (locals s)(f \<mapsto> l)\<rparr>)))) ts"
    by simp
next
  fix f t l e l' w
  assume l: "locals s f = Some l" and dl: "deliver (h t) (l, world s) e = (l', w)"
  have "settled l \<noteq> None \<longrightarrow> settled l' \<noteq> None"
    using sticky [of l _ t "world s" e] dl by auto
  from in_flight_event [where ls = "locals s" and f = f and l = l and l' = l' and ts = ts, OF l this]
    queued_event [where ls = "locals s" and f = f and l = l and l' = l' and ts = ts, OF l] inv
  show "length (in_flight ts (locals (promise_all ts (settled l) (settled l')
            (s\<lparr>world := w, locals := (locals s)(f \<mapsto> l')\<rparr>)))) \<le> n
       \<and> suffix (queued ts (locals (promise_all ts (settled l) (settled l')
            (s\<lparr>world := w, locals := (locals s)(f \<mapsto> l')\<rparr>)))) ts"
    by simp
qed

lemma run_pool_bound:
  assumes sticky: "\<And>t l w e x. settled l = Some x \<Longrightarrow> settled (fst (deliver (h t) (l, w) e)) = Some x"
    and d: "distinct (map fileName ts)"
  shows "length (in_flight ts (locals (run_pool bg h n ts evs w))) \<le> n
       \<and> suffix (queued ts (locals (run_pool bg h n ts evs w))) ts"
proof -
  have "length (in_flight ts (locals (foldl (pool_step bg h n ts) s evs))) \<le> n
       \<and> suffix (queued ts (locals (foldl (pool_step bg h n ts) s evs))) ts"
    if "length (in_flight ts (locals s)) \<le> n \<and> suffix (queued ts (locals s)) ts" for s
    using that
  proof (induction evs arbitrary: s)
    case Nil
    then show ?case by simp
  next
    case (Cons ev evs)
    from pool_step_bound [of h ts s n bg ev, OF sticky d Cons.prems]
    have "length (in_flight ts (locals (pool_step bg h n ts s ev))) \<le> n
       \<and> suffix (queued ts (locals (pool_step bg h n ts s ev))) ts" .
    from Cons.IH [OF this] show ?case by simp
  qed
  from this [of "\<lparr>world = w, locals = Map.empty, awaited = None\<rparr>"] show ?thesis
    by (simp add: run_pool_def)
qed

lemma begin_needs_slot:
  assumes "\<not> begun s f" "begun (pool_step bg h n ts s (Begin f)) f"
  shows "length (in_flight ts (locals s)) < n \<and> map fileName (take 1 (queued ts (locals s))) = [f]"
proof (cases "uncaught (world s) \<or> admits n ts (locals s) f = None")
  case True
  then have "pool_step bg h n ts s (Begin f) = s" by auto
  with assms show ?thesis by simp
next
  case False
  then obtain t where a: "admits n ts (locals s) f = Some t" by auto
  from admits_SomeD [OF a] show ?thesis by auto
qed

lemma task_names [simp]:
  "map fileName (gif_tasks inputDir outputDir names) = names"
  "map fileName (image_tasks inputDir outputDir names) = names"
  by (simp_all add: gif_tasks_def image_tasks_def comp_def)

lemma processImages_locals:
  assumes "readdirSync (fsys w) inputDir = Some entries" "filter is_image entries \<noteq> []"
  shows "locals (snd (processImages inputDir outputDir evs w))
       = locals (run_pool webp_begin webp_handle 4
           (image_tasks inputDir outputDir (filter is_image entries)) evs
           (emit [Found (length (filter is_image entries))] (emit [ReadDir inputDir] w)))"
  using assms by (simp add: processImages_def Let_def)

lemma processGIFs_pooled_locals:
  assumes "readdirSync (fsys w) inputDir = Some entries" "filter is_gif entries \<noteq> []"
  shows "locals (snd (processGIFs_pooled inputDir outputDir evs w))
       = locals (run_pool gif_begin gif_handle 4
           (gif_tasks inputDir outputDir (filter is_gif entries)) evs
           (emit [Found (length (filter is_gif entries))] (emit [ReadDir inputDir] w)))"
  using assms by (simp add: processGIFs_pooled_def Let_def)

lemma for_await_append:
  assumes "for_await opt tls pre w = (Returned, w1)"
  shows "for_await opt tls (pre @ rest) w = for_await opt tls rest w1"
  using assms
proof (induction pre arbitrary: w)
  case Nil
  then show ?case by simp
next
  case (Cons t pre)
  obtain l w0 where run: "opt t (tls (fileName t)) w = (l, w0)"
    by (cases "opt t (tls (fileName t)) w")
  with Cons.prems show ?case
    by (auto simp: Cons.IH split: if_splits option.splits settle.splits)
qed

lemma for_await_waits:
  assumes "for_await opt tls pre w = (Returned, w1)"
    and "settled (fst (opt t (tls (fileName t)) w1)) = None"
    and "\<not> uncaught (snd (opt t (tls (fileName t)) w1))"
  shows "for_await opt tls (pre @ t # rest) w = (Waiting, snd (opt t (tls (fileName t)) w1))"
  using assms(2,3)
  by (cases "opt t (tls (fileName t)) w1") (simp add: for_await_append [OF assms(1)])

text \<open>
  Claim C3. The state of a pooled run after any sequence of events is the state at some
  instant of the run, so what holds after every sequence holds at every instant. With the
  limiter modelled from the specification and pairwise distinct file names, as a directory
  listing has them: however many tasks are submitted and whatever the events, at most N
  tasks have begun and are not settled, in both pooled scripts and for every N; the tasks
  that have not begun are an end of the submission list, so tasks begin in submission order;
  in the scripts as written, which pass 4, the bound is 4; and a task begins only when fewer
  than N tasks are in flight and it is the first of the queue. In the two sequential scripts
  (\<open>index_task\<close> and \<open>legacy_task\<close> are their \<^verbatim>\<open>optimizeGIF\<close>), wherever the loop stands, as
  long as the promise of the current task is not settled, nothing of a later task has
  happened: the run is waiting in the state that the tasks before it and this task have
  produced.
\<close>

theorem concurrency_bound:
  "(distinct (map fileName ts) \<longrightarrow>
       length (in_flight ts (locals (run_pool gif_begin gif_handle n ts evs w))) \<le> n
     \<and> suffix (queued ts (locals (run_pool gif_begin gif_handle n ts evs w))) ts
     \<and> length (in_flight ts (locals (run_pool webp_begin webp_handle n ts sevs w))) \<le> n
     \<and> suffix (queued ts (locals (run_pool webp_begin webp_handle n ts sevs w))) ts)
   \<and> (distinct entries \<and> readdirSync (fsys w) inputDir = Some entries \<longrightarrow>
       length (in_flight (gif_tasks inputDir outputDir (filter is_gif entries))
                 (locals (snd (processGIFs_pooled inputDir outputDir evs w)))) \<le> 4
     \<and> suffix (queued (gif_tasks inputDir outputDir (filter is_gif entries))
                 (locals (snd (processGIFs_pooled inputDir outputDir evs w))))
          (gif_tasks inputDir outputDir (filter is_gif entries))
     \<and> length (in_flight (image_tasks inputDir outputDir (filter is_image entries))
                 (locals (snd (processImages inputDir outputDir sevs w)))) \<le> 4
     \<and> suffix (queued (image_tasks inputDir outputDir (filter is_image entries))
                 (locals (snd (processImages inputDir outputDir sevs w))))
          (image_tasks inputDir outputDir (filter is_image entries)))
   \<and> (\<not> begun s f \<and> begun (pool_step gif_begin gif_handle n ts s (Begin f)) f \<longrightarrow>
        length (in_flight ts (locals s)) < n
      \<and> map fileName (take 1 (queued ts (locals s))) = [f])
   \<and> (\<not> begun s f \<and> begun (pool_step webp_begin webp_handle n ts s (Begin f)) f \<longrightarrow>
        length (in_flight ts (locals s)) < n
      \<and> map fileName (take 1 (queued ts (locals s))) = [f])
   \<and> (for_await index_task tls before w = (Returned, w1)
        \<and> settled (fst (index_task t (tls (fileName t)) w1)) = None
        \<and> \<not> uncaught (snd (index_task t (tls (fileName t)) w1)) \<longrightarrow>
        for_await index_task tls (before @ t # rest) w
          = (Waiting, snd (index_task t (tls (fileName t)) w1)))
   \<and> (for_await legacy_task tls before w = (Returned, w1)
        \<and> settled (fst (legacy_task t (tls (fileName t)) w1)) = None
        \<and> \<not> uncaught (snd (legacy_task t (tls (fileName t)) w1)) \<longrightarrow>
        for_await legacy_task tls (before @ t # rest) w
          = (Waiting, snd (legacy_task t (tls (fileName t)) w1)))"
proof (intro conjI impI)
  assume d: "distinct (map fileName ts)"
  have g: "\<And>t l w e x. settled l = Some x \<Longrightarrow> settled (fst (deliver (gif_handle t) (l, w) e)) = Some x"
    by (rule pooled_sticky)
  have i: "\<And>t l w e x. settled l = Some x \<Longrightarrow> settled (fst (deliver (webp_handle t) (l, w) e)) = Some x"
    by (rule webp_sticky)
  from run_pool_bound [of gif_handle ts gif_begin n evs w, OF g d]
  show "length (in_flight ts (locals (run_pool gif_begin gif_handle n ts evs w))) \<le> n"
    and "suffix (queued ts (locals (run_pool gif_begin gif_handle n ts evs w))) ts"
    by simp_all
  from run_pool_bound [of webp_handle ts webp_begin n sevs w, OF i d]
  show "length (in_flight ts (locals (run_pool webp_begin webp_handle n ts sevs w))) \<le> n"
    and "suffix (queued ts (locals (run_pool webp_begin webp_handle n ts sevs w))) ts"
    by simp_all
next
  assume a: "distinct entries \<and> readdirSync (fsys w) inputDir = Some entries"
  then have l: "readdirSync (fsys w) inputDir = Some entries" by simp
  let ?ts = "gif_tasks inputDir outputDir (filter is_gif entries)"
  from a have d: "distinct (map fileName ?ts)" by simp
  have g: "\<And>t l w e x. settled l = Some x \<Longrightarrow> settled (fst (deliver (gif_handle t) (l, w) e)) = Some x"
    by (rule pooled_sticky)
  have "length (in_flight ?ts (locals (snd (processGIFs_pooled inputDir outputDir evs w)))) \<le> 4
      \<and> suffix (queued ?ts (locals (snd (processGIFs_pooled inputDir outputDir evs w)))) ?ts"
  proof (cases "filter is_gif entries = []")
    case True
    with l show ?thesis by (simp add: processGIFs_pooled_def)
  next
    case False
    from run_pool_bound [of gif_handle ?ts gif_begin 4 evs, OF g d] show ?thesis
      by (simp add: processGIFs_pooled_locals [OF l False])
  qed
  then show "length (in_flight ?ts (locals (snd (processGIFs_pooled inputDir outputDir evs w)))) \<le> 4"
    and "suffix (queued ?ts (locals (snd (processGIFs_pooled inputDir outputDir evs w)))) ?ts"
    by simp_all
  let ?is = "image_tasks inputDir outputDir (filter is_image entries)"
  from a have d': "distinct (map fileName ?is)" by simp
  have i: "\<And>t l w e x. settled l = Some x \<Longrightarrow> settled (fst (deliver (webp_handle t) (l, w) e)) = Some x"
    by (rule webp_sticky)
  have "length (in_flight ?is (locals (snd (processImages inputDir outputDir sevs w)))) \<le> 4
      \<and> suffix (queued ?is (locals (snd (processImages inputDir outputDir sevs w)))) ?is"
  proof (cases "filter is_image entries = []")
    case True
    with l show ?thesis by (simp add: processImages_def)
  next
    case False
    from run_pool_bound [of webp_handle ?is webp_begin 4 sevs, OF i d'] show ?thesis
      by (simp add: processImages_locals [OF l False])
  qed
  then show "length (in_flight ?is (locals (snd (processImages inputDir outputDir sevs w)))) \<le> 4"
    and "suffix (queued ?is (locals (snd (processImages inputDir outputDir sevs w)))) ?is"
    by simp_all
next
  assume a: "\<not> begun s f \<and> begun (pool_step gif_begin gif_handle n ts s (Begin f)) f"
  then have "\<not> begun s f" "begun (pool_step gif_begin gif_handle n ts s (Begin f)) f" by simp_all
  from begin_needs_slot [OF this]
  show "length (in_flight ts (locals s)) < n"
    and "map fileName (take 1 (queued ts (locals s))) = [f]" by simp_all
next
  assume a: "\<not> begun s f \<and> begun (pool_step webp_begin webp_handle n ts s (Begin f)) f"
  then have "\<not> begun s f" "begun (pool_step webp_begin webp_handle n ts s (Begin f)) f" by simp_all
  from begin_needs_slot [OF this]
  show "length (in_flight ts (locals s)) < n"
    and "map fileName (take 1 (queued ts (locals s))) = [f]" by simp_all
next
  assume "for_await index_task tls before w = (Returned, w1)
        \<and> settled (fst (index_task t (tls (fileName t)) w1)) = None
        \<and> \<not> uncaught (snd (index_task t (tls (fileName t)) w1))"
  then show "for_await index_task tls (before @ t # rest) w
          = (Waiting, snd (index_task t (tls (fileName t)) w1))"
    by (intro for_await_waits) simp_all
next
  assume "for_await legacy_task tls before w = (Returned, w1)
        \<and> settled (fst (legacy_task t (tls (fileName t)) w1)) = None
        \<and> \<not> uncaught (snd (legacy_task t (tls (fileName t)) w1))"
  then show "for_await legacy_task tls (before @ t # rest) w
          = (Waiting, snd (legacy_task t (tls (fileName t)) w1))"
    by (intro for_await_waits) simp_all
qed

theorem concurrency_bound_witness:
  "distinct (map fileName (gif_tasks ''/app/input'' ''/app/output'' [''a.gif'', ''b.gif'']))
   \<and> length (in_flight (gif_tasks ''/app/input'' ''/app/output'' [''a.gif'', ''b.gif''])
        (locals (run_pool gif_begin gif_handle 1
           (gif_tasks ''/app/input'' ''/app/output'' [''a.gif'', ''b.gif''])
           [Begin ''a.gif'', Begin ''b.gif''] demo_two))) \<le> 1
   \<and> map fileName (in_flight (gif_tasks ''/app/input'' ''/app/output'' [''a.gif'', ''b.gif''])
        (locals (run_pool gif_begin gif_handle 1
           (gif_tasks ''/app/input'' ''/app/output'' [''a.gif'', ''b.gif''])
           [Begin ''a.gif'', Begin ''b.gif''] demo_two))) = [''a.gif'']
   \<and> map fileName (queued (gif_tasks ''/app/input'' ''/app/output'' [''a.gif'', ''b.gif''])
        (locals (run_pool gif_begin gif_handle 1
           (gif_tasks ''/app/input'' ''/app/output'' [''a.gif'', ''b.gif''])
           [Begin ''a.gif'', Begin ''b.gif''] demo_two))) = [''b.gif'']
   \<and> distinct [''a.gif'', ''b.gif'']
   \<and> readdirSync (fsys demo_two) ''/app/input'' = Some [''a.gif'', ''b.gif'']
   \<and> length (in_flight (gif_tasks ''/app/input'' ''/app/output'' (filter is_gif [''a.gif'', ''b.gif'']))
        (locals (snd (processGIFs_pooled ''/app/input'' ''/app/output''
           [Begin ''a.gif'', Begin ''b.gif''] demo_two)))) \<le> 4
   \<and> map fileName (in_flight (image_tasks ''/app/images'' ''/app/webp-images'' [''p.png''])
        (locals (run_pool webp_begin webp_handle 1
           (image_tasks ''/app/images'' ''/app/webp-images'' [''p.png''])
           [Begin ''p.png'', Ev ''p.png'' (SWritten ''abc'')] demo_images))) = [''p.png'']
   \<and> length (in_flight (image_tasks ''/app/images'' ''/app/webp-images'' [''p.png''])
        (locals (run_pool webp_begin webp_handle 1
           (image_tasks ''/app/images'' ''/app/webp-images'' [''p.png''])
           [Begin ''p.png'', Ev ''p.png'' (SWritten ''abc'')] demo_images))) \<le> 1
   \<and> length (in_flight (image_tasks ''/app/images'' ''/app/webp-images'' (filter is_image [''p.png'']))
        (locals (snd (processImages ''/app/images'' ''/app/webp-images''
           [Begin ''p.png'', Ev ''p.png'' (SWritten ''abc'')] demo_images)))) \<le> 4
   \<and> \<not> begun \<lparr>world = demo_two, locals = Map.empty, awaited = None\<rparr> ''a.gif''
   \<and> begun (pool_step gif_begin gif_handle 1
        (gif_tasks ''/app/input'' ''/app/output'' [''a.gif'', ''b.gif''])
        \<lparr>world = demo_two, locals = Map.empty, awaited = None\<rparr> (Begin ''a.gif'')) ''a.gif''
   \<and> map fileName (take 1 (queued (gif_tasks ''/app/input'' ''/app/output'' [''a.gif'', ''b.gif''])
        (locals \<lparr>world = demo_two, locals = Map.empty, awaited = None\<rparr>))) = [''a.gif'']
   \<and> fst (for_await index_task (\<lambda>file. if file = ''a.gif'' then [CloseEv (Some 1)] else [Written ''ab''])
        (gif_tasks ''/app/input'' ''/app/output'' [''a.gif'']) demo_two) = Returned
   \<and> fst (for_await index_task (\<lambda>file. if file = ''a.gif'' then [CloseEv (Some 1)] else [Written ''ab''])
        (gif_tasks ''/app/input'' ''/app/output'' [''a.gif'']
         @ \<lparr>inputPath = ''/app/input/b.gif'', outputPath = ''/app/output/b.gif'', fileName = ''b.gif''\<rparr>
         # gif_tasks ''/app/input'' ''/app/output'' [''c.gif'']) demo_two) = Waiting
   \<and> filter is_exec (trace (snd (for_await index_task
        (\<lambda>file. if file = ''a.gif'' then [CloseEv (Some 1)] else [Written ''ab''])
        (gif_tasks ''/app/input'' ''/app/output'' [''a.gif'']
         @ \<lparr>inputPath = ''/app/input/b.gif'', outputPath = ''/app/output/b.gif'', fileName = ''b.gif''\<rparr>
         # gif_tasks ''/app/input'' ''/app/output'' [''c.gif'']) demo_two)))
      = map index_exec (gif_tasks ''/app/input'' ''/app/output'' [''a.gif'', ''b.gif''])"
proof -
  let ?tls = "\<lambda>file. if file = ''a.gif'' then [CloseEv (Some 1)] else [Written ''ab'']"
  let ?b = "\<lparr>inputPath = ''/app/input/b.gif'', outputPath = ''/app/output/b.gif'', fileName = ''b.gif''\<rparr>"
  let ?w1 = "snd (for_await index_task ?tls (gif_tasks ''/app/input'' ''/app/output'' [''a.gif'']) demo_two)"
  have names: "distinct (map fileName (gif_tasks ''/app/input'' ''/app/output'' [''a.gif'', ''b.gif'']))"
    by code_simp
  have flying: "map fileName (in_flight (gif_tasks ''/app/input'' ''/app/output'' [''a.gif'', ''b.gif''])
        (locals (run_pool gif_begin gif_handle 1
           (gif_tasks ''/app/input'' ''/app/output'' [''a.gif'', ''b.gif''])
           [Begin ''a.gif'', Begin ''b.gif''] demo_two))) = [''a.gif'']"
    by code_simp
  have waiting: "map fileName (queued (gif_tasks ''/app/input'' ''/app/output'' [''a.gif'', ''b.gif''])
        (locals (run_pool gif_begin gif_handle 1
           (gif_tasks ''/app/input'' ''/app/output'' [''a.gif'', ''b.gif''])
           [Begin ''a.gif'', Begin ''b.gif''] demo_two))) = [''b.gif'']"
    by code_simp
  have entries: "distinct [''a.gif'', ''b.gif'']"
    by simp
  have listed: "readdirSync (fsys demo_two) ''/app/input'' = Some [''a.gif'', ''b.gif'']"
    by code_simp
  have images: "distinct (map fileName (image_tasks ''/app/images'' ''/app/webp-images'' [''p.png'']))"
    by code_simp
  have converting: "map fileName (in_flight (image_tasks ''/app/images'' ''/app/webp-images'' [''p.png''])
        (locals (run_pool webp_begin webp_handle 1
           (image_tasks ''/app/images'' ''/app/webp-images'' [''p.png''])
           [Begin ''p.png'', Ev ''p.png'' (SWritten ''abc'')] demo_images))) = [''p.png'']"
    by code_simp
  have image_entries: "distinct [''p.png'']"
    by simp
  have image_listed: "readdirSync (fsys demo_images) ''/app/images'' = Some [''p.png'']"
    by code_simp
  have fresh: "\<not> begun \<lparr>world = demo_two, locals = Map.empty, awaited = None\<rparr> ''a.gif''"
    by (simp add: begun_def)
  have started: "begun (pool_step gif_begin gif_handle 1
        (gif_tasks ''/app/input'' ''/app/output'' [''a.gif'', ''b.gif''])
        \<lparr>world = demo_two, locals = Map.empty, awaited = None\<rparr> (Begin ''a.gif'')) ''a.gif''"
    by code_simp
  have returned: "fst (for_await index_task ?tls
        (gif_tasks ''/app/input'' ''/app/output'' [''a.gif'']) demo_two) = Returned"
    by code_simp
  then have first: "for_await index_task ?tls
        (gif_tasks ''/app/input'' ''/app/output'' [''a.gif'']) demo_two = (Returned, ?w1)"
    by (simp add: prod_eq_iff)
  have unsettled: "settled (fst (index_task ?b (?tls (fileName ?b)) ?w1)) = None"
    by code_simp
  have alive: "\<not> uncaught (snd (index_task ?b (?tls (fileName ?b)) ?w1))"
    by code_simp
  have spawned_two: "filter is_exec (trace (snd (index_task ?b (?tls (fileName ?b)) ?w1)))
      = map index_exec (gif_tasks ''/app/input'' ''/app/output'' [''a.gif'', ''b.gif''])"
    by code_simp
  note inst = concurrency_bound [where ts = "gif_tasks ''/app/input'' ''/app/output'' [''a.gif'', ''b.gif'']"
      and n = 1 and evs = "[Begin ''a.gif'', Begin ''b.gif'']" and w = demo_two and sevs = "[]"
      and entries = "[''a.gif'', ''b.gif'']" and inputDir = "''/app/input''"
      and outputDir = "''/app/output''"
      and s = "\<lparr>world = demo_two, locals = Map.empty, awaited = None\<rparr>" and f = "''a.gif''"
      and before = "gif_tasks ''/app/input'' ''/app/output'' [''a.gif'']" and ?w1.0 = ?w1
      and t = ?b and tls = ?tls
      and rest = "gif_tasks ''/app/input'' ''/app/output'' [''c.gif'']"]
  note raster = concurrency_bound [where ts = "image_tasks ''/app/images'' ''/app/webp-images'' [''p.png'']"
      and n = 1 and sevs = "[Begin ''p.png'', Ev ''p.png'' (SWritten ''abc'')]" and w = demo_images
      and evs = "[]" and entries = "[''p.png'']" and inputDir = "''/app/images''"
      and outputDir = "''/app/webp-images''"]
  have bound: "length (in_flight (gif_tasks ''/app/input'' ''/app/output'' [''a.gif'', ''b.gif''])
        (locals (run_pool gif_begin gif_handle 1
           (gif_tasks ''/app/input'' ''/app/output'' [''a.gif'', ''b.gif''])
           [Begin ''a.gif'', Begin ''b.gif''] demo_two))) \<le> 1"
    by (rule inst [THEN conjunct1, THEN mp, THEN conjunct1]) (rule names)
  have four: "length (in_flight (gif_tasks ''/app/input'' ''/app/output'' (filter is_gif [''a.gif'', ''b.gif'']))
        (locals (snd (processGIFs_pooled ''/app/input'' ''/app/output''
           [Begin ''a.gif'', Begin ''b.gif''] demo_two)))) \<le> 4"
    by (rule inst [THEN conjunct2, THEN conjunct1, THEN mp, THEN conjunct1])
      (intro conjI entries listed)
  have image_bound: "length (in_flight (image_tasks ''/app/images'' ''/app/webp-images'' [''p.png''])
        (locals (run_pool webp_begin webp_handle 1
           (image_tasks ''/app/images'' ''/app/webp-images'' [''p.png''])
           [Begin ''p.png'', Ev ''p.png'' (SWritten ''abc'')] demo_images))) \<le> 1"
    by (rule raster [THEN conjunct1, THEN mp, THEN conjunct2, THEN conjunct2, THEN conjunct1])
      (rule images)
  have image_four: "length (in_flight (image_tasks ''/app/images'' ''/app/webp-images'' (filter is_image [''p.png'']))
        (locals (snd (processImages ''/app/images'' ''/app/webp-images''
           [Begin ''p.png'', Ev ''p.png'' (SWritten ''abc'')] demo_images)))) \<le> 4"
    by (rule raster [THEN conjunct2, THEN conjunct1, THEN mp, THEN conjunct2, THEN conjunct2,
          THEN conjunct1]) (intro conjI image_entries image_listed)
  have head: "map fileName (take 1 (queued (gif_tasks ''/app/input'' ''/app/output'' [''a.gif'', ''b.gif''])
        (locals \<lparr>world = demo_two, locals = Map.empty, awaited = None\<rparr>))) = [''a.gif'']"
    by (rule inst [THEN conjunct2, THEN conjunct2, THEN conjunct1, THEN mp, THEN conjunct2])
      (intro conjI fresh started)
  have loop: "for_await index_task ?tls
        (gif_tasks ''/app/input'' ''/app/output'' [''a.gif''] @ ?b
         # gif_tasks ''/app/input'' ''/app/output'' [''c.gif'']) demo_two
      = (Waiting, snd (index_task ?b (?tls (fileName ?b)) ?w1))"
    by (rule inst [THEN conjunct2, THEN conjunct2, THEN conjunct2, THEN conjunct2, THEN conjunct1,
          THEN mp]) (intro conjI first unsettled alive)
  from loop have still: "fst (for_await index_task ?tls
        (gif_tasks ''/app/input'' ''/app/output'' [''a.gif''] @ ?b
         # gif_tasks ''/app/input'' ''/app/output'' [''c.gif'']) demo_two) = Waiting"
    by (simp only: fst_conv)
  from loop spawned_two have two: "filter is_exec (trace (snd (for_await index_task ?tls
        (gif_tasks ''/app/input'' ''/app/output'' [''a.gif''] @ ?b
         # gif_tasks ''/app/input'' ''/app/output'' [''c.gif'']) demo_two)))
      = map index_exec (gif_tasks ''/app/input'' ''/app/output'' [''a.gif'', ''b.gif''])"
    by (simp only: snd_conv)
  show ?thesis
    by (intro conjI names bound flying waiting entries listed four converting image_bound
        image_four fresh started head returned still two)
qed

end
